theory Spec2Isabelle
  imports Complex_Main "HOL-Library.AList"
begin

section \<open>PhishShield: the background service worker and the popup's bulk link scan\<close>

text \<open>
  The model follows \<^verbatim>\<open>Extension/popup.js\<close>, whose second half is the background
  service worker (\<^verbatim>\<open>urlCache\<close>, \<^verbatim>\<open>scanUrl\<close>, \<^verbatim>\<open>updateBadge\<close>,
  \<^verbatim>\<open>showNotification\<close>, \<^verbatim>\<open>cleanCache\<close> and the listeners) and whose first half is
  the popup class (\<^verbatim>\<open>scanPageLinks\<close>).

  Calls into the browser (\<^verbatim>\<open>chrome.action\<close>, \<^verbatim>\<open>chrome.notifications\<close>,
  \<^verbatim>\<open>chrome.storage\<close>, \<^verbatim>\<open>fetch\<close>, \<^verbatim>\<open>console.error\<close>) are recorded, in the order
  the code issues them, in a trace of events; what the environment answers (the clock,
  the remote service, the stored setting) is an input of the model. A recorded browser
  call is taken not to throw.
\<close>

subsection \<open>Values exchanged with the remote service\<close>

text \<open>
  The body of a \<^verbatim>\<open>/api/check-url\<close> response after \<^verbatim>\<open>response.json()\<close>. The
  service's contract types the fields (\<^verbatim>\<open>risk\<close> and \<^verbatim>\<open>error\<close> are strings,
  \<^verbatim>\<open>score\<close> a number, \<^verbatim>\<open>reasons\<close> a list of strings); each field may be missing,
  which JavaScript reads as \<^verbatim>\<open>undefined\<close> and the model as \<open>None\<close>. The body may also be
  the JSON value \<^verbatim>\<open>null\<close>. Bodies of other shapes (a JSON array, string or number, or
  fields of other types) are outside the model.
\<close>

record verdict =
  error :: "string option"
  risk :: "string option"
  score :: "rat option"
  reasons :: "string list option"

datatype json_body = JNull | JObject verdict

text \<open>
  What \<^verbatim>\<open>await fetch(...)\<close> followed by \<^verbatim>\<open>await response.json()\<close> gives: the fetch
  rejects (network failure), the body is not JSON (\<^verbatim>\<open>json()\<close> rejects), or a parsed body
  arrives together with the HTTP status.
\<close>

datatype fetch_outcome =
    FetchRejected
  | NotJson nat
  | Json nat json_body

datatype js_error = FetchFailed | SyntaxError | TypeError | Error string

text \<open>JavaScript truthiness of a string-or-undefined value: \<^verbatim>\<open>undefined\<close> and \<^verbatim>\<open>""\<close> are falsy.\<close>

definition truthy :: "string option \<Rightarrow> bool" where
  "truthy v = (case v of None \<Rightarrow> False | Some s \<Rightarrow> s \<noteq> [])"

subsection \<open>Strings\<close>

text \<open>
  \<^verbatim>\<open>url.toLowerCase()\<close> and \<^verbatim>\<open>s.startsWith(p)\<close>. URLs are taken to be ASCII, as the
  browser reports them (percent-encoded paths, punycode hosts), so lower-casing folds the
  letters A to Z.
\<close>

definition toLowerCase_char :: "char \<Rightarrow> char" where
  "toLowerCase_char c =
     (let n = (of_char c :: nat) in if 65 \<le> n \<and> n \<le> 90 then char_of (n + 32) else c)"

definition toLowerCase :: "string \<Rightarrow> string" where
  "toLowerCase s = map toLowerCase_char s"

definition startsWith :: "string \<Rightarrow> string \<Rightarrow> bool" where
  "startsWith s p = (take (length p) s = p)"

subsection \<open>The trace of browser calls\<close>

text \<open>
  A tab id is a number or \<^verbatim>\<open>undefined\<close>. A badge text or colour is a string or
  \<^verbatim>\<open>undefined\<close>.
\<close>

type_synonym tab_id = "int option"

datatype event =
    SetBadgeText "string option" tab_id
  | SetBadgeBackgroundColor "string option" tab_id
  | CacheGet string
  | Fetch string
  | StorageGet string
  | NotificationsCreate string "rat option"
  | ExecuteScript tab_id
  | ConsoleError
  | ConsoleLog

subsection \<open>Configuration of the service worker\<close>

definition CACHE_TTL :: int where
  "CACHE_TTL = 5 * 60 * 1000"

definition BADGE_COLORS :: "string \<Rightarrow> string option" where
  "BADGE_COLORS = map_of
     [(''safe'', ''#10b981''),
      (''suspicious'', ''#f59e0b''),
      (''malicious'', ''#ef4444''),
      (''loading'', ''#3b82f6''),
      (''error'', ''#6b7280'')]"

subsection \<open>The URL cache: a JavaScript Map\<close>

text \<open>
  A \<^verbatim>\<open>Map\<close> keeps its entries in insertion order: \<^verbatim>\<open>set\<close> on a key it holds replaces
  the value in place, on a new key it appends; \<^verbatim>\<open>entries()\<close> lists them in that order.
  The model is an association list.
\<close>

record cache_entry =
  result :: verdict
  timestamp :: int

type_synonym url_cache = "(string \<times> cache_entry) list"

definition Map_get :: "url_cache \<Rightarrow> string \<Rightarrow> cache_entry option" where
  "Map_get m k = map_of m k"

definition Map_set :: "url_cache \<Rightarrow> string \<Rightarrow> cache_entry \<Rightarrow> url_cache" where
  "Map_set m k v = AList.update k v m"

definition Map_delete :: "url_cache \<Rightarrow> string \<Rightarrow> url_cache" where
  "Map_delete m k = AList.delete k m"

record worker =
  urlCache :: url_cache
  trace :: "event list"

definition emit :: "event list \<Rightarrow> worker \<Rightarrow> worker" where
  "emit evs w = w\<lparr>trace := trace w @ evs\<rparr>"

subsection \<open>\<^verbatim>\<open>cleanCache\<close>\<close>

text \<open>
  The first loop deletes every entry with \<^verbatim>\<open>now - value.timestamp > CACHE_TTL\<close>. Then, if
  more than 1000 entries are left, the entries are sorted by timestamp (the sort of an
  array is stable) and the first \<^verbatim>\<open>entries.length - 500\<close> keys are deleted.
\<close>

definition expired :: "int \<Rightarrow> cache_entry \<Rightarrow> bool" where
  "expired now v = (now - timestamp v > CACHE_TTL)"

definition sweepExpired :: "int \<Rightarrow> url_cache \<Rightarrow> url_cache" where
  "sweepExpired now m = filter (\<lambda>(key, v). \<not> expired now v) m"

definition limitSize :: "url_cache \<Rightarrow> url_cache" where
  "limitSize m =
     (if length m > 1000 then
        (let entries = sort_key (\<lambda>e. timestamp (snd e)) m
         in fold (\<lambda>e m'. Map_delete m' (fst e)) (take (length entries - 500) entries) m)
      else m)"

definition cleanCache :: "int \<Rightarrow> url_cache \<Rightarrow> url_cache" where
  "cleanCache now m = limitSize (sweepExpired now m)"

subsection \<open>\<^verbatim>\<open>updateBadge\<close>\<close>

record badge_config =
  badge_text :: "string option"
  badge_color :: "string option"

text \<open>The glyphs of the safe and the malicious badge, as their UTF-8 bytes.\<close>

definition check_mark :: string where
  "check_mark = [CHR 0xE2, CHR 0x9C, CHR 0x93]"

definition ballot_x :: string where
  "ballot_x = [CHR 0xE2, CHR 0x9C, CHR 0x97]"

definition badgeConfig :: "string \<Rightarrow> badge_config option" where
  "badgeConfig = map_of
     [(''safe'', \<lparr>badge_text = Some check_mark, badge_color = BADGE_COLORS ''safe''\<rparr>),
      (''suspicious'', \<lparr>badge_text = Some ''!'', badge_color = BADGE_COLORS ''suspicious''\<rparr>),
      (''malicious'', \<lparr>badge_text = Some ballot_x, badge_color = BADGE_COLORS ''malicious''\<rparr>)]"

text \<open>
  \<^verbatim>\<open>badgeConfig[risk]\<close> also finds the members every object inherits from
  \<^verbatim>\<open>Object.prototype\<close>; they are truthy and have neither \<^verbatim>\<open>text\<close> nor \<^verbatim>\<open>color\<close>.
\<close>

definition Object_prototype :: "string list" where
  "Object_prototype =
     [''constructor'', ''__defineGetter__'', ''__defineSetter__'', ''hasOwnProperty'',
      ''__lookupGetter__'', ''__lookupSetter__'', ''isPrototypeOf'', ''propertyIsEnumerable'',
      ''toString'', ''valueOf'', ''__proto__'', ''toLocaleString'']"

definition badge_lookup :: "string option \<Rightarrow> badge_config" where
  "badge_lookup r =
     (let fallback = \<lparr>badge_text = Some ''?'', badge_color = BADGE_COLORS ''error''\<rparr>
      in case r of
           None \<Rightarrow> fallback
         | Some k \<Rightarrow>
             (case badgeConfig k of
                Some c \<Rightarrow> c
              | None \<Rightarrow>
                  if k \<in> set Object_prototype
                  then \<lparr>badge_text = None, badge_color = None\<rparr>
                  else fallback))"

definition updateBadge :: "string option \<Rightarrow> tab_id \<Rightarrow> event list" where
  "updateBadge r tabId =
     (let config = badge_lookup r
      in [SetBadgeText (badge_text config) tabId,
          SetBadgeBackgroundColor (badge_color config) tabId])"

subsection \<open>\<^verbatim>\<open>showNotification\<close>\<close>

text \<open>
  What the environment answers during one call of \<^verbatim>\<open>scanUrl\<close>: the three readings of
  \<^verbatim>\<open>Date.now()\<close> (at the cache check, at the store, inside \<^verbatim>\<open>cleanCache\<close>), the
  outcome of the fetch, the stored \<^verbatim>\<open>showNotifications\<close> value (\<open>None\<close> when the store
  holds none), and \<^verbatim>\<open>new URL(url).hostname\<close> (\<open>None\<close> when the constructor throws on a
  string that is no URL).
\<close>

record scan_env =
  now_check :: int
  fetched :: fetch_outcome
  now_store :: int
  now_clean :: int
  showNotifications :: "bool option"
  hostname :: "string option"

text \<open>
  The callback of \<^verbatim>\<open>chrome.storage.local.get\<close> creates the notification unless the
  stored value is \<^verbatim>\<open>false\<close>; an exception of \<^verbatim>\<open>new URL\<close> ends the callback before
  the notification is created. The callback runs once the storage has answered; its events
  are recorded with the call of \<^verbatim>\<open>scanUrl\<close> that registered it. The notification is
  recorded with the host name and the score its message shows.
\<close>

definition showNotification :: "string \<Rightarrow> verdict \<Rightarrow> scan_env \<Rightarrow> event list" where
  "showNotification url res env =
     StorageGet ''showNotifications'' #
     (if showNotifications env \<noteq> Some False then
        (case hostname env of
           None \<Rightarrow> []
         | Some h \<Rightarrow> [NotificationsCreate h (score res)])
      else [])"

subsection \<open>\<^verbatim>\<open>scanUrl\<close>\<close>

text \<open>
  The body of the \<^verbatim>\<open>try\<close> block: \<open>Inl\<close> is the exception that reaches \<^verbatim>\<open>catch\<close>,
  with the state at the point of the throw.
\<close>

definition scanUrl_try ::
  "string \<Rightarrow> tab_id \<Rightarrow> string \<Rightarrow> scan_env \<Rightarrow> worker \<Rightarrow> (js_error + verdict) \<times> worker" where
  "scanUrl_try url tabId cacheKey env w =
     (let w1 = emit [Fetch url] w
      in case fetched env of
           FetchRejected \<Rightarrow> (Inl FetchFailed, w1)
         | NotJson status \<Rightarrow> (Inl SyntaxError, w1)
         | Json status JNull \<Rightarrow> (Inl TypeError, w1)
         | Json status (JObject res) \<Rightarrow>
             if truthy (error res)
             then (Inl (Error (case error res of Some msg \<Rightarrow> msg | None \<Rightarrow> [])), w1)
             else
               (let w2 = w1\<lparr>urlCache :=
                          Map_set (urlCache w1) cacheKey
                            \<lparr>result = res, timestamp = now_store env\<rparr>\<rparr>;
                    w3 = w2\<lparr>urlCache := cleanCache (now_clean env) (urlCache w2)\<rparr>;
                    w4 = emit (updateBadge (risk res) tabId) w3;
                    w5 = (if risk res = Some ''malicious''
                          then emit (showNotification url res env) w4 else w4)
                in (Inr res, w5)))"

text \<open>
  The test \<^verbatim>\<open>cached && Date.now() - cached.timestamp < CACHE_TTL\<close>: the entry when it
  passes, \<open>None\<close> when there is no entry or it is too old.
\<close>

definition fresh :: "int \<Rightarrow> cache_entry option \<Rightarrow> cache_entry option" where
  "fresh now cached =
     (case cached of
        None \<Rightarrow> None
      | Some c \<Rightarrow> if now - timestamp c < CACHE_TTL then Some c else None)"

text \<open>
  \<^verbatim>\<open>scanUrl\<close> resolves to the verdict or to \<^verbatim>\<open>null\<close> (\<open>Inr None\<close>); \<open>Inl\<close> stands for
  a rejected promise.
\<close>

definition scanUrl ::
  "string \<Rightarrow> tab_id \<Rightarrow> scan_env \<Rightarrow> worker \<Rightarrow> (js_error + verdict option) \<times> worker" where
  "scanUrl url tabId env w =
     (let w1 = emit [SetBadgeText (Some ''...'') tabId,
                     SetBadgeBackgroundColor (BADGE_COLORS ''loading'') tabId] w;
          cacheKey = toLowerCase url;
          cached = Map_get (urlCache w1) cacheKey;
          w2 = emit [CacheGet cacheKey] w1
      in case fresh (now_check env) cached of
           Some c \<Rightarrow> (Inr (Some (result c)), emit (updateBadge (risk (result c)) tabId) w2)
         | None \<Rightarrow>
             (case scanUrl_try url tabId cacheKey env w2 of
                (Inr res, w3) \<Rightarrow> (Inr (Some res), w3)
              | (Inl err, w3) \<Rightarrow>
                  (Inr None,
                   emit [ConsoleError,
                         SetBadgeText (Some ''!'') tabId,
                         SetBadgeBackgroundColor (BADGE_COLORS ''error'') tabId] w3)))"

text \<open>
  The store of a successful scan: \<^verbatim>\<open>urlCache.set(cacheKey, {result, timestamp})\<close>
  followed by \<^verbatim>\<open>cleanCache()\<close>. \<open>run_puts\<close> performs a sequence of them, each with
  its key, verdict and two clock readings.
\<close>

definition cachePut :: "string \<Rightarrow> verdict \<Rightarrow> int \<Rightarrow> int \<Rightarrow> url_cache \<Rightarrow> url_cache" where
  "cachePut key res t_store t_clean m =
     cleanCache t_clean (Map_set m key \<lparr>result = res, timestamp = t_store\<rparr>)"

fun run_puts :: "(string \<times> verdict \<times> int \<times> int) list \<Rightarrow> url_cache \<Rightarrow> url_cache" where
  "run_puts [] m = m"
| "run_puts ((key, res, t_store, t_clean) # ops) m =
     run_puts ops (cachePut key res t_store t_clean m)"

text \<open>The service worker starts with an empty cache.\<close>

definition startup :: worker where
  "startup = \<lparr>urlCache = [], trace = []\<rparr>"

subsection \<open>The listeners of the service worker\<close>

record tab =
  tab_url :: "string option"
  tab_ident :: int

text \<open>
  \<^verbatim>\<open>chrome.tabs.onActivated\<close>: \<^verbatim>\<open>chrome.tabs.get\<close> gives the tab or throws (\<open>None\<close>);
  the whole body is inside \<^verbatim>\<open>try\<close>. A missing \<^verbatim>\<open>tab.url\<close> and the empty string are
  falsy.
\<close>

definition onActivated :: "tab option \<Rightarrow> scan_env \<Rightarrow> worker \<Rightarrow> worker" where
  "onActivated got env w =
     (case got of
        None \<Rightarrow> emit [ConsoleError] w
      | Some t \<Rightarrow>
          (case tab_url t of
             None \<Rightarrow> emit [SetBadgeText (Some []) (Some (tab_ident t))] w
           | Some u \<Rightarrow>
               if u \<noteq> [] \<and> startsWith u ''http''
               then
                 (case scanUrl u (Some (tab_ident t)) env w of
                    (Inr r, w') \<Rightarrow> w'
                  | (Inl err, w') \<Rightarrow> emit [ConsoleError] w')
               else emit [SetBadgeText (Some []) (Some (tab_ident t))] w))"

text \<open>
  \<^verbatim>\<open>chrome.webNavigation.onCompleted\<close>: scans the top frame's URL when it starts with
  \<^verbatim>\<open>http\<close>, and does nothing otherwise.
\<close>

definition onCompleted :: "int \<Rightarrow> string \<Rightarrow> int \<Rightarrow> scan_env \<Rightarrow> worker \<Rightarrow> worker" where
  "onCompleted frameId url tabId env w =
     (if frameId = 0 \<and> startsWith url ''http''
      then snd (scanUrl url (Some tabId) env w)
      else w)"

text \<open>
  \<^verbatim>\<open>chrome.tabs.onUpdated\<close>: when the change is the status \<^verbatim>\<open>complete\<close> and the
  tab's URL starts with \<^verbatim>\<open>http\<close>, scans the URL and then injects the content script;
  an injection that fails (\<open>injects\<close> is false) is logged.
\<close>

definition onUpdated ::
  "int \<Rightarrow> string option \<Rightarrow> tab \<Rightarrow> bool \<Rightarrow> scan_env \<Rightarrow> worker \<Rightarrow> worker" where
  "onUpdated tabId status t injects env w =
     (case tab_url t of
        None \<Rightarrow> w
      | Some u \<Rightarrow>
          if status = Some ''complete'' \<and> u \<noteq> [] \<and> startsWith u ''http''
          then
            (case scanUrl u (Some tabId) env w of
               (Inr r, w') \<Rightarrow>
                 emit (ExecuteScript (Some tabId) # (if injects then [] else [ConsoleLog])) w'
             | (Inl err, w') \<Rightarrow> w')
          else w)"

subsection \<open>The message listener\<close>

text \<open>
  The actions \<^verbatim>\<open>updateBadge\<close>, \<^verbatim>\<open>scanUrl\<close> and \<^verbatim>\<open>checkUrl\<close> of
  \<^verbatim>\<open>chrome.runtime.onMessage\<close>, with what each passes to \<^verbatim>\<open>sendResponse\<close>:
  \<^verbatim>\<open>{ success: true }\<close>, a parsed body or \<^verbatim>\<open>null\<close> (\<open>Payload\<close>), or
  \<^verbatim>\<open>{ error: error.message }\<close> for a caught exception (\<open>ErrorPayload\<close>).
\<close>

datatype request =
    UpdateBadgeRequest "string option" tab_id
  | ScanUrlRequest string tab_id
  | CheckUrlRequest string

datatype rpc_response =
    Success
  | Payload json_body
  | ErrorPayload js_error

text \<open>\<^verbatim>\<open>request.tabId || sender.tab?.id\<close>: a missing tab id and the id 0 are falsy.\<close>

definition tab_or :: "tab_id \<Rightarrow> tab_id \<Rightarrow> tab_id" where
  "tab_or a b = (case a of None \<Rightarrow> b | Some n \<Rightarrow> if n = 0 then b else Some n)"

definition onMessage ::
  "request \<Rightarrow> tab_id \<Rightarrow> scan_env \<Rightarrow> worker \<Rightarrow> rpc_response \<times> worker" where
  "onMessage request sender_tab env w =
     (case request of
        UpdateBadgeRequest r tabId \<Rightarrow> (Success, emit (updateBadge r tabId) w)
      | ScanUrlRequest url tabId \<Rightarrow>
          (case scanUrl url (tab_or tabId sender_tab) env w of
             (Inr (Some res), w') \<Rightarrow> (Payload (JObject res), w')
           | (Inr None, w') \<Rightarrow> (Payload JNull, w')
           | (Inl err, w') \<Rightarrow> (ErrorPayload err, w'))
      | CheckUrlRequest url \<Rightarrow>
          (let w1 = emit [Fetch url] w
           in case fetched env of
                FetchRejected \<Rightarrow> (ErrorPayload FetchFailed, w1)
              | NotJson status \<Rightarrow> (ErrorPayload SyntaxError, w1)
              | Json status body \<Rightarrow> (Payload body, w1)))"

subsection \<open>The popup: \<^verbatim>\<open>scanPageLinks\<close>\<close>

record link_stats =
  total :: nat
  safe :: nat
  suspicious :: nat
  malicious :: nat

text \<open>
  \<^verbatim>\<open>[...new Set(response.links)]\<close>: a \<^verbatim>\<open>Set\<close> keeps the first occurrence of each
  value, in insertion order.
\<close>

definition Set_add :: "'a list \<Rightarrow> 'a \<Rightarrow> 'a list" where
  "Set_add s x = (if x \<in> set s then s else s @ [x])"

definition new_Set :: "'a list \<Rightarrow> 'a list" where
  "new_Set xs = foldl Set_add [] xs"

datatype popup_event =
    GetLinks
  | CheckUrl string
  | LogError
  | StorageSet string link_stats
  | HighlightLinks "(string \<times> json_body) list"
  | ToastSuccess nat
  | ToastError

text \<open>
  The state of the loop: the counters, the results array (an element
  \<^verbatim>\<open>{ url: link, ...data }\<close> is the pair of the link and the body spread into it; the
  spread of \<^verbatim>\<open>null\<close> adds nothing) and the trace.
\<close>

record link_scan =
  stats :: link_stats
  results :: "(string \<times> json_body) list"
  events :: "popup_event list"

definition count_risk :: "string option \<Rightarrow> link_stats \<Rightarrow> link_stats" where
  "count_risk r st =
     (if r = Some ''safe'' then st\<lparr>safe := safe st + 1\<rparr>
      else if r = Some ''suspicious'' then st\<lparr>suspicious := suspicious st + 1\<rparr>
      else if r = Some ''malicious'' then st\<lparr>malicious := malicious st + 1\<rparr>
      else st)"

text \<open>
  One round of the loop over \<^verbatim>\<open>links.slice(0, 50)\<close>. The inner \<^verbatim>\<open>catch\<close> logs a
  rejected fetch, a body that is not JSON, and the \<^verbatim>\<open>TypeError\<close> of \<^verbatim>\<open>data.risk\<close>
  on a \<^verbatim>\<open>null\<close> body, which is thrown after the push.
\<close>

definition scanLink :: "(string \<Rightarrow> fetch_outcome) \<Rightarrow> string \<Rightarrow> link_scan \<Rightarrow> link_scan" where
  "scanLink remote link s =
     (let s1 = s\<lparr>events := events s @ [CheckUrl link]\<rparr>
      in case remote link of
           FetchRejected \<Rightarrow> s1\<lparr>events := events s1 @ [LogError]\<rparr>
         | NotJson status \<Rightarrow> s1\<lparr>events := events s1 @ [LogError]\<rparr>
         | Json status data \<Rightarrow>
             (let s2 = s1\<lparr>results := results s1 @ [(link, data)]\<rparr>
              in case data of
                   JNull \<Rightarrow> s2\<lparr>events := events s2 @ [LogError]\<rparr>
                 | JObject res \<Rightarrow> s2\<lparr>stats := count_risk (risk res) (stats s2)\<rparr>))"

record popup =
  currentUrl :: string
  currentTabId :: tab_id
  pageLinksStats :: "(string \<times> link_stats) list"
  popup_trace :: "popup_event list"

text \<open>
  \<^verbatim>\<open>scanPageLinks\<close>: the content script answers \<^verbatim>\<open>getLinks\<close> with a list of links, or
  with nothing usable (\<open>None\<close>: \<^verbatim>\<open>!response || !response.links\<close>), which throws to the
  outer \<^verbatim>\<open>catch\<close>. \<open>remote\<close> is the outcome of the fetch for each link. The stored
  \<^verbatim>\<open>pageLinksStats\<close> object is an association list keyed by the page's URL.
\<close>

definition scanPageLinks ::
  "string list option \<Rightarrow> (string \<Rightarrow> fetch_outcome) \<Rightarrow> popup \<Rightarrow> popup" where
  "scanPageLinks response remote p =
     (case response of
        None \<Rightarrow> p\<lparr>popup_trace := popup_trace p @ [GetLinks, LogError, ToastError]\<rparr>
      | Some response_links \<Rightarrow>
          (let links = new_Set response_links;
               s0 = \<lparr>stats = \<lparr>total = length links, safe = 0, suspicious = 0, malicious = 0\<rparr>,
                     results = [], events = []\<rparr>;
               s = fold (scanLink remote) (take 50 links) s0
           in p\<lparr>pageLinksStats := AList.update (currentUrl p) (stats s) (pageLinksStats p),
                popup_trace := popup_trace p @ [GetLinks] @ events s @
                  [StorageSet (currentUrl p) (stats s),
                   HighlightLinks (results s),
                   ToastSuccess (length links)]\<rparr>))"

subsection \<open>Notions used to state the properties\<close>

text \<open>The events a step appended to the trace.\<close>

definition new_events :: "worker \<Rightarrow> worker \<Rightarrow> event list" where
  "new_events w w' = drop (length (trace w)) (trace w')"

fun is_fetch :: "event \<Rightarrow> bool" where
  "is_fetch (Fetch u) = True"
| "is_fetch e = False"

fun is_alert :: "event \<Rightarrow> bool" where
  "is_alert (NotificationsCreate h s) = True"
| "is_alert e = False"

fun is_cache_get :: "event \<Rightarrow> bool" where
  "is_cache_get (CacheGet k) = True"
| "is_cache_get e = False"

definition remote_calls :: "event list \<Rightarrow> nat" where
  "remote_calls evs = length (filter is_fetch evs)"

definition alerts :: "event list \<Rightarrow> nat" where
  "alerts evs = length (filter is_alert evs)"

text \<open>
  The outcomes of the fetch that take \<^verbatim>\<open>scanUrl\<close> to its \<^verbatim>\<open>catch\<close>: a rejected
  fetch, a body that is not JSON, the body \<^verbatim>\<open>null\<close>, and a body with a truthy
  \<^verbatim>\<open>error\<close>. The HTTP status takes no part.
\<close>

fun throws :: "fetch_outcome \<Rightarrow> bool" where
  "throws FetchRejected = True"
| "throws (NotJson status) = True"
| "throws (Json status JNull) = True"
| "throws (Json status (JObject res)) = truthy (error res)"

text \<open>The same notions for the popup: the events a step appended, and the requests among them.\<close>

definition popup_new :: "popup \<Rightarrow> popup \<Rightarrow> popup_event list" where
  "popup_new p p' = drop (length (popup_trace p)) (popup_trace p')"

fun is_check_url :: "popup_event \<Rightarrow> bool" where
  "is_check_url (CheckUrl u) = True"
| "is_check_url e = False"

definition link_requests :: "popup_event list \<Rightarrow> nat" where
  "link_requests evs = length (filter is_check_url evs)"

text \<open>
  The \<^verbatim>\<open>risk\<close> the loop reads from the outcome of a fetch (\<open>None\<close> when the round ends
  in the \<^verbatim>\<open>catch\<close> or the body has no such field), and what the round pushes on the
  results array.
\<close>

fun risk_of :: "fetch_outcome \<Rightarrow> string option" where
  "risk_of (Json status (JObject res)) = risk res"
| "risk_of f = None"

fun pushed :: "string \<Rightarrow> fetch_outcome \<Rightarrow> (string \<times> json_body) list" where
  "pushed link (Json status data) = [(link, data)]"
| "pushed link f = []"

subsection \<open>Sample data\<close>

text \<open>Verdicts of the service: a safe one, a malicious one, and an object without fields.\<close>

definition safe_verdict :: verdict where
  "safe_verdict = \<lparr>error = None, risk = Some ''safe'', score = Some (1 / 10), reasons = Some []\<rparr>"

definition malicious_verdict :: verdict where
  "malicious_verdict =
     \<lparr>error = None, risk = Some ''malicious'', score = Some (92 / 100),
      reasons = Some [''no_https'']\<rparr>"

definition empty_verdict :: verdict where
  "empty_verdict = \<lparr>error = None, risk = None, score = None, reasons = None\<rparr>"

text \<open>A body whose \<^verbatim>\<open>error\<close> field is the empty string.\<close>

definition blank_error_verdict :: verdict where
  "blank_error_verdict =
     \<lparr>error = Some [], risk = Some ''safe'', score = Some (1 / 10), reasons = Some []\<rparr>"

text \<open>Bodies that carry an \<^verbatim>\<open>error\<close> field, without and with a \<^verbatim>\<open>risk\<close>.\<close>

definition error_verdict :: verdict where
  "error_verdict =
     \<lparr>error = Some ''Internal error'', risk = None, score = None, reasons = None\<rparr>"

definition error_safe_verdict :: verdict where
  "error_safe_verdict =
     \<lparr>error = Some ''Model degraded'', risk = Some ''safe'', score = Some (1 / 10),
      reasons = Some []\<rparr>"

text \<open>
  An environment in which the clock reads \<open>t\<close> throughout, the fetch gives \<open>f\<close>,
  notifications are enabled and the URL has the host name \<open>h\<close>.
\<close>

definition env_at :: "int \<Rightarrow> fetch_outcome \<Rightarrow> string \<Rightarrow> scan_env" where
  "env_at t f h =
     \<lparr>now_check = t, fetched = f, now_store = t, now_clean = t,
      showNotifications = Some True, hostname = Some h\<rparr>"

text \<open>A cache of 1000 entries, stored one millisecond apart.\<close>

definition full_cache :: url_cache where
  "full_cache =
     map (\<lambda>i. (''http://site.example/'' @ replicate i CHR ''a'',
               \<lparr>result = safe_verdict, timestamp = int i\<rparr>)) [0..<1000]"

text \<open>A worker whose cache holds one entry, stored at time 0.\<close>

definition stale_worker :: worker where
  "stale_worker =
     \<lparr>urlCache = [(''http://example.com/a'', \<lparr>result = safe_verdict, timestamp = 0\<rparr>)],
      trace = []\<rparr>"

text \<open>A worker whose cache holds a malicious verdict, stored at time 0.\<close>

definition malicious_worker :: worker where
  "malicious_worker =
     \<lparr>urlCache = [(''http://example.com/a'', \<lparr>result = malicious_verdict, timestamp = 0\<rparr>)],
      trace = []\<rparr>"

text \<open>A tab that shows an internal page of the browser.\<close>

definition internal_tab :: tab where
  "internal_tab = \<lparr>tab_url = Some ''chrome://extensions/'', tab_ident = 7\<rparr>"

text \<open>A popup on a page, and 120 distinct links.\<close>

definition popup0 :: popup where
  "popup0 =
     \<lparr>currentUrl = ''http://example.com/page'', currentTabId = Some 1,
      pageLinksStats = [], popup_trace = []\<rparr>"

definition many_links :: "string list" where
  "many_links = map (\<lambda>i. ''http://example.com/'' @ replicate i CHR ''a'') [0..<120]"

section \<open>Properties\<close>

subsection \<open>The three ways through \<^verbatim>\<open>scanUrl\<close>\<close>

lemma trace_emit [simp]: "trace (emit evs w) = trace w @ evs"
  by (simp add: emit_def)

lemma urlCache_emit [simp]: "urlCache (emit evs w) = urlCache w"
  by (simp add: emit_def)

lemma new_events_append [simp]: "trace w' = trace w @ evs \<Longrightarrow> new_events w w' = evs"
  by (simp add: new_events_def)

lemma not_throws:
  assumes "\<not> throws f"
  obtains status res where "f = Json status (JObject res)" and "\<not> truthy (error res)"
  using assms by (cases f rule: throws.cases) simp_all

lemma loading_color: "BADGE_COLORS ''loading'' = Some ''#3b82f6''"
  by (simp add: BADGE_COLORS_def)

lemma error_color: "BADGE_COLORS ''error'' = Some ''#6b7280''"
  by (simp add: BADGE_COLORS_def)

text \<open>A fresh entry answers the scan.\<close>

lemma scanUrl_hit:
  assumes "fresh (now_check env) (Map_get (urlCache w) (toLowerCase url)) = Some c"
  shows "scanUrl url tabId env w =
    (Inr (Some (result c)),
     emit ([SetBadgeText (Some ''...'') tabId,
            SetBadgeBackgroundColor (BADGE_COLORS ''loading'') tabId,
            CacheGet (toLowerCase url)] @ updateBadge (risk (result c)) tabId) w)"
  using assms by (simp add: scanUrl_def Let_def emit_def)

text \<open>No fresh entry, and the remote call ends in the \<^verbatim>\<open>catch\<close>.\<close>

lemma scanUrl_throw:
  assumes "fresh (now_check env) (Map_get (urlCache w) (toLowerCase url)) = None"
    and "throws (fetched env)"
  shows "scanUrl url tabId env w =
    (Inr None,
     emit [SetBadgeText (Some ''...'') tabId,
           SetBadgeBackgroundColor (BADGE_COLORS ''loading'') tabId,
           CacheGet (toLowerCase url),
           Fetch url,
           ConsoleError,
           SetBadgeText (Some ''!'') tabId,
           SetBadgeBackgroundColor (BADGE_COLORS ''error'') tabId] w)"
  using assms
  by (cases "fetched env" rule: throws.cases)
     (simp_all add: scanUrl_def scanUrl_try_def Let_def emit_def)

text \<open>No fresh entry, and the remote call gives a body that is stored.\<close>

lemma scanUrl_stored:
  assumes "fresh (now_check env) (Map_get (urlCache w) (toLowerCase url)) = None"
    and "fetched env = Json status (JObject res)" and "\<not> truthy (error res)"
  shows "scanUrl url tabId env w =
    (Inr (Some res),
     \<lparr>urlCache = cachePut (toLowerCase url) res (now_store env) (now_clean env) (urlCache w),
      trace = trace w @
        [SetBadgeText (Some ''...'') tabId,
         SetBadgeBackgroundColor (BADGE_COLORS ''loading'') tabId,
         CacheGet (toLowerCase url),
         Fetch url] @ updateBadge (risk res) tabId @
        (if risk res = Some ''malicious'' then showNotification url res env else [])\<rparr>)"
  using assms
  by (simp add: scanUrl_def scanUrl_try_def Let_def emit_def cachePut_def)

lemma scanUrl_resolves: "\<exists>r. fst (scanUrl url tabId env w) = Inr r"
  by (simp add: scanUrl_def Let_def split: option.splits sum.splits prod.splits)

lemma scanUrl_starts:
  "\<exists>rest. trace (snd (scanUrl url tabId env w)) =
     trace w @ [SetBadgeText (Some ''...'') tabId,
                SetBadgeBackgroundColor (BADGE_COLORS ''loading'') tabId,
                CacheGet (toLowerCase url)] @ rest"
proof (cases "fresh (now_check env) (Map_get (urlCache w) (toLowerCase url))")
  case (Some c)
  then show ?thesis by (simp add: scanUrl_hit)
next
  case None
  show ?thesis
  proof (cases "throws (fetched env)")
    case True
    with None show ?thesis by (simp add: scanUrl_throw)
  next
    case False
    then obtain status res where "fetched env = Json status (JObject res)"
      and "\<not> truthy (error res)" by (rule not_throws)
    with None show ?thesis by (simp add: scanUrl_stored)
  qed
qed

subsection \<open>The loading badge comes first\<close>

text \<open>
  C9. Every call of \<^verbatim>\<open>scanUrl\<close> keeps the trace it found and appends to it, first of
  all, the badge text \<^verbatim>\<open>...\<close> and the loading colour for the tab; the cache is
  consulted only after them, and a remote request, if any, is issued later still: none of
  the first three events of the call is a fetch.
\<close>

theorem scanUrl_loading_first:
  "take (length (trace w)) (trace (snd (scanUrl url tabId env w))) = trace w \<and>
   take 3 (new_events w (snd (scanUrl url tabId env w))) =
     [SetBadgeText (Some ''...'') tabId,
      SetBadgeBackgroundColor (Some ''#3b82f6'') tabId,
      CacheGet (toLowerCase url)] \<and>
   remote_calls (take 3 (new_events w (snd (scanUrl url tabId env w)))) = 0"
proof -
  obtain rest where "trace (snd (scanUrl url tabId env w)) =
     trace w @ [SetBadgeText (Some ''...'') tabId,
                SetBadgeBackgroundColor (BADGE_COLORS ''loading'') tabId,
                CacheGet (toLowerCase url)] @ rest"
    using scanUrl_starts by blast
  then show ?thesis
    by (simp add: new_events_def loading_color remote_calls_def)
qed

subsection \<open>The capacity sweep of \<^verbatim>\<open>cleanCache\<close>\<close>

lemma Map_delete_filter: "Map_delete m k = filter (\<lambda>e. fst e \<noteq> k) m"
  by (induction m) (auto simp: Map_delete_def AList.delete_eq)

lemma fold_delete_filter:
  "fold (\<lambda>e m'. Map_delete m' (fst e)) es m = filter (\<lambda>x. fst x \<notin> fst ` set es) m"
proof (induction es arbitrary: m)
  case Nil
  then show ?case by simp
next
  case (Cons e es)
  have "filter (\<lambda>x. fst x \<notin> fst ` set es) (filter (\<lambda>x. fst x \<noteq> fst e) m) =
        filter (\<lambda>x. fst x \<notin> fst ` set (e # es)) m"
    by (induction m) auto
  with Cons show ?case by (simp add: Map_delete_filter)
qed

lemma distinct_keys_mem:
  assumes "distinct (map fst m)" and "set es \<subseteq> set m" and "x \<in> set m"
  shows "fst x \<in> fst ` set es \<longleftrightarrow> x \<in> set es"
proof
  assume "fst x \<in> fst ` set es"
  then obtain y where y: "y \<in> set es" "fst y = fst x" by auto
  with assms have "y \<in> set m" by auto
  with assms(1,3) y(2) have "y = x" by (metis eq_key_imp_eq_value prod.collapse)
  with y show "x \<in> set es" by simp
qed auto

lemma evict_filter:
  assumes "distinct (map fst m)" and "set es \<subseteq> set m"
  shows "fold (\<lambda>e m'. Map_delete m' (fst e)) es m = filter (\<lambda>x. x \<notin> set es) m"
proof -
  have "filter (\<lambda>x. fst x \<notin> fst ` set es) m = filter (\<lambda>x. x \<notin> set es) m"
    using distinct_keys_mem [OF assms] by (intro filter_cong) auto
  then show ?thesis by (simp add: fold_delete_filter)
qed

lemma length_evict:
  assumes "distinct m" and "distinct es" and "set es \<subseteq> set m"
  shows "length (filter (\<lambda>x. x \<notin> set es) m) = length m - length es"
proof -
  have "set (filter (\<lambda>x. x \<notin> set es) m) = set m - set es" by auto
  moreover have "distinct (filter (\<lambda>x. x \<notin> set es) m)" using assms(1) by simp
  ultimately have "length (filter (\<lambda>x. x \<notin> set es) m) = card (set m - set es)"
    by (metis distinct_card)
  also have "\<dots> = card (set m) - card (set es)"
    using assms(3) by (simp add: card_Diff_subset)
  also have "\<dots> = length m - length es"
    using assms(1,2) by (simp add: distinct_card)
  finally show ?thesis .
qed

lemma distinct_keys_distinct: "distinct (map fst m) \<Longrightarrow> distinct m"
  by (simp add: distinct_map)

lemma limitSize_eq:
  assumes "distinct (map fst m)" and "length m > 1000"
  shows "limitSize m =
    filter (\<lambda>x. x \<notin> set (take (length m - 500) (sort_key (\<lambda>e. timestamp (snd e)) m))) m"
proof -
  have "set (take (length m - 500) (sort_key (\<lambda>e. timestamp (snd e)) m)) \<subseteq> set m"
    using set_take_subset [of "length m - 500" "sort_key (\<lambda>e. timestamp (snd e)) m"] by simp
  with assms show ?thesis
    by (simp add: limitSize_def Let_def evict_filter)
qed

lemma length_limitSize:
  assumes "distinct (map fst m)" and "length m > 1000"
  shows "length (limitSize m) = 500"
proof -
  let ?s = "sort_key (\<lambda>e. timestamp (snd e)) m"
  let ?es = "take (length m - 500) ?s"
  have dm: "distinct m" using assms(1) by (rule distinct_keys_distinct)
  have "distinct ?es" using dm by simp
  moreover have "set ?es \<subseteq> set m" using set_take_subset [of "length m - 500" ?s] by simp
  ultimately have "length (filter (\<lambda>x. x \<notin> set ?es) m) = length m - length ?es"
    using dm by (simp add: length_evict)
  moreover have "length ?es = length m - 500" by simp
  ultimately show ?thesis using assms by (simp add: limitSize_eq)
qed

lemma limitSize_recent:
  assumes "distinct (map fst m)" and "length m > 1000"
    and "x \<in> set (limitSize m)" and "y \<in> set m - set (limitSize m)"
  shows "timestamp (snd y) \<le> timestamp (snd x)"
proof -
  let ?f = "\<lambda>e. timestamp (snd e)"
  let ?s = "sort_key ?f m"
  let ?n = "length m - 500"
  have eq: "limitSize m = filter (\<lambda>x. x \<notin> set (take ?n ?s)) m"
    using assms(1,2) by (rule limitSize_eq)
  have xm: "x \<in> set m" and xt: "x \<notin> set (take ?n ?s)" using assms(3) eq by auto
  have yt: "y \<in> set (take ?n ?s)" using assms(4) eq by auto
  have "x \<in> set ?s" using xm by simp
  then have "x \<in> set (take ?n ?s) \<union> set (drop ?n ?s)"
    by (metis append_take_drop_id set_append)
  with xt have xd: "x \<in> set (drop ?n ?s)" by simp
  have "sorted (map ?f (take ?n ?s @ drop ?n ?s))" by simp
  then have "\<forall>a\<in>set (take ?n ?s). \<forall>b\<in>set (drop ?n ?s). ?f a \<le> ?f b"
    unfolding map_append sorted_append by auto
  with yt xd show ?thesis by simp
qed

lemma limitSize_subset: "set (limitSize m) \<subseteq> set m"
  by (auto simp: limitSize_def Let_def fold_delete_filter)

lemma limitSize_small: "length m \<le> 1000 \<Longrightarrow> limitSize m = m"
  by (simp add: limitSize_def)

lemma distinct_sweepExpired: "distinct (map fst m) \<Longrightarrow> distinct (map fst (sweepExpired now m))"
  by (simp add: sweepExpired_def distinct_map_filter)

lemma distinct_limitSize: "distinct (map fst m) \<Longrightarrow> distinct (map fst (limitSize m))"
  by (simp add: limitSize_def Let_def fold_delete_filter distinct_map_filter)

lemma distinct_Map_set: "distinct (map fst m) \<Longrightarrow> distinct (map fst (Map_set m k v))"
  by (simp add: Map_set_def distinct_update)

lemma distinct_cachePut:
  "distinct (map fst m) \<Longrightarrow> distinct (map fst (cachePut key res t_store t_clean m))"
  by (simp add: cachePut_def cleanCache_def distinct_limitSize distinct_sweepExpired distinct_Map_set)

lemma length_cleanCache:
  assumes "distinct (map fst m)"
  shows "length (cleanCache now m) \<le> 1000"
proof (cases "length (sweepExpired now m) > 1000")
  case True
  with assms show ?thesis
    by (simp add: cleanCache_def length_limitSize distinct_sweepExpired)
next
  case False
  then show ?thesis by (simp add: cleanCache_def limitSize_small)
qed

lemma run_puts_inv:
  "distinct (map fst m) \<Longrightarrow> length m \<le> 1000 \<Longrightarrow>
   distinct (map fst (run_puts ops m)) \<and> length (run_puts ops m) \<le> 1000"
proof (induction ops m rule: run_puts.induct)
  case (1 m)
  then show ?case by simp
next
  case (2 key res t_store t_clean ops m)
  have "distinct (map fst (cachePut key res t_store t_clean m))"
    using "2.prems"(1) by (rule distinct_cachePut)
  moreover have "length (cachePut key res t_store t_clean m) \<le> 1000"
    using "2.prems"(1) by (simp add: cachePut_def length_cleanCache distinct_Map_set)
  ultimately show ?case using "2.IH" by simp
qed

lemma length_Map_set_new:
  "k \<notin> fst ` set m \<Longrightarrow> length (Map_set m k v) = Suc (length m)"
  by (induction m) (auto simp: Map_set_def)

lemma sweepExpired_none:
  "\<forall>e\<in>set m. \<not> expired now (snd e) \<Longrightarrow> sweepExpired now m = m"
  by (induction m) (auto simp: sweepExpired_def)

lemma set_Map_set_subset: "set (Map_set m k v) \<subseteq> insert (k, v) (set m)"
  by (induction m) (auto simp: Map_set_def)

text \<open>Every call of \<^verbatim>\<open>scanUrl\<close> keeps the keys distinct and the size within 1000.\<close>

lemma scanUrl_cache_inv:
  assumes "distinct (map fst (urlCache w))" and "length (urlCache w) \<le> 1000"
  shows "distinct (map fst (urlCache (snd (scanUrl url tabId env w)))) \<and>
         length (urlCache (snd (scanUrl url tabId env w))) \<le> 1000"
proof (cases "fresh (now_check env) (Map_get (urlCache w) (toLowerCase url))")
  case (Some c)
  with assms show ?thesis by (simp add: scanUrl_hit)
next
  case None
  show ?thesis
  proof (cases "throws (fetched env)")
    case True
    with None assms show ?thesis by (simp add: scanUrl_throw)
  next
    case False
    then obtain status res where "fetched env = Json status (JObject res)"
      and "\<not> truthy (error res)" by (rule not_throws)
    moreover have "length (cachePut (toLowerCase url) res (now_store env) (now_clean env)
        (urlCache w)) \<le> 1000"
      using assms(1) by (simp add: cachePut_def length_cleanCache distinct_Map_set)
    ultimately show ?thesis
      using None assms by (simp add: scanUrl_stored distinct_cachePut)
  qed
qed

text \<open>
  C2, amended. A sequence of stores that starts from the empty cache never leaves more
  than 1000 entries, and neither does a single store into any cache. When the store and
  the purge of the expired entries leave more than 1000 entries, the capacity sweep leaves
  exactly 500 of them, and no entry it removes has a later timestamp than an entry it
  keeps; otherwise the sweep removes nothing. A call of \<^verbatim>\<open>scanUrl\<close>, whatever its outcome,
  takes a cache of at most 1000 entries to a cache of at most 1000 entries.
\<close>

theorem cache_capacity:
  assumes "distinct (map fst m)"
  shows "length (run_puts ops []) \<le> 1000 \<and>
         length (cachePut key res t_store t_clean m) \<le> 1000 \<and>
         (let left = sweepExpired t_clean (Map_set m key \<lparr>result = res, timestamp = t_store\<rparr>);
              m' = cachePut key res t_store t_clean m
          in if length left > 1000
             then length m' = 500 \<and> set m' \<subseteq> set left \<and>
                  (\<forall>x\<in>set m'. \<forall>y\<in>set left - set m'. timestamp (snd y) \<le> timestamp (snd x))
             else m' = left) \<and>
         (length m \<le> 1000 \<longrightarrow>
            length (urlCache (snd (scanUrl url tabId env \<lparr>urlCache = m, trace = tr\<rparr>))) \<le> 1000)"
proof -
  let ?left = "sweepExpired t_clean (Map_set m key \<lparr>result = res, timestamp = t_store\<rparr>)"
  have d: "distinct (map fst ?left)"
    using assms by (simp add: distinct_sweepExpired distinct_Map_set)
  have eq: "cachePut key res t_store t_clean m = limitSize ?left"
    by (simp add: cachePut_def cleanCache_def)
  have 1: "length (run_puts ops []) \<le> 1000"
    using run_puts_inv [of "[]" ops] by simp
  have 2: "length (cachePut key res t_store t_clean m) \<le> 1000"
    using assms by (simp add: cachePut_def length_cleanCache distinct_Map_set)
  have 3: "length (limitSize ?left) = 500" if "length ?left > 1000"
    using d that by (rule length_limitSize)
  have 4: "\<forall>x\<in>set (limitSize ?left). \<forall>y\<in>set ?left - set (limitSize ?left).
             timestamp (snd y) \<le> timestamp (snd x)" if "length ?left > 1000"
    using limitSize_recent [OF d that] by blast
  have 5: "limitSize ?left = ?left" if "\<not> length ?left > 1000"
    using that by (simp add: limitSize_small)
  have 6: "length (urlCache (snd (scanUrl url tabId env \<lparr>urlCache = m, trace = tr\<rparr>))) \<le> 1000"
    if "length m \<le> 1000"
    using scanUrl_cache_inv [of "\<lparr>urlCache = m, trace = tr\<rparr>" url tabId env] assms that
    by simp
  show ?thesis
    unfolding Let_def eq using 1 2 3 4 5 6 limitSize_subset [of ?left]
    by (simp add: eq)
qed

lemma distinct_full_cache: "distinct (map fst full_cache)"
proof -
  have "inj_on (\<lambda>i. ''http://site.example/'' @ replicate i CHR ''a'') (set [0..<1000])"
    by (rule inj_onI) (metis length_replicate same_append_eq)
  then show ?thesis
    by (simp add: full_cache_def distinct_map comp_def)
qed

lemma new_key_full_cache: "''http://new.example/'' \<notin> fst ` set full_cache"
  by (auto simp: full_cache_def)

lemma full_cache_young: "\<forall>e\<in>set full_cache. \<not> expired 1000 (snd e)"
  by (auto simp: full_cache_def expired_def CACHE_TTL_def)

theorem cache_capacity_witness:
  "distinct (map fst full_cache) \<and> length full_cache \<le> 1000 \<and>
   length (sweepExpired 1000
     (Map_set full_cache ''http://new.example/'' \<lparr>result = safe_verdict, timestamp = 1000\<rparr>)) = 1001 \<and>
   length (cachePut ''http://new.example/'' safe_verdict 1000 1000 full_cache) = 500 \<and>
   set (cachePut ''http://new.example/'' safe_verdict 1000 1000 full_cache) \<subseteq>
     set (sweepExpired 1000
       (Map_set full_cache ''http://new.example/'' \<lparr>result = safe_verdict, timestamp = 1000\<rparr>)) \<and>
   length (urlCache (snd (scanUrl ''http://new.example/'' (Some 1)
     (env_at 1000 (Json 200 (JObject safe_verdict)) ''new.example'')
     \<lparr>urlCache = full_cache, trace = []\<rparr>))) \<le> 1000"
proof -
  let ?e = "\<lparr>result = safe_verdict, timestamp = 1000\<rparr>"
  let ?stored = "Map_set full_cache ''http://new.example/'' ?e"
  have d: "distinct (map fst full_cache)" by (rule distinct_full_cache)
  have l: "length full_cache \<le> 1000" by (simp add: full_cache_def)
  have "\<forall>e\<in>set ?stored. \<not> expired 1000 (snd e)"
    using full_cache_young set_Map_set_subset [of full_cache "''http://new.example/''" ?e]
    by (auto simp: expired_def CACHE_TTL_def)
  then have "sweepExpired 1000 ?stored = ?stored" by (rule sweepExpired_none)
  moreover have "length ?stored = 1001"
    using new_key_full_cache by (simp add: length_Map_set_new full_cache_def)
  ultimately have n: "length (sweepExpired 1000 ?stored) = 1001" by simp
  show ?thesis
    using d l n cache_capacity [OF d, of "[]" "''http://new.example/''" safe_verdict 1000 1000
      "''http://new.example/''" "Some 1"
      "env_at 1000 (Json 200 (JObject safe_verdict)) ''new.example''" "[]"]
    by (simp add: Let_def)
qed

subsection \<open>Stale entries\<close>

lemma CACHE_TTL_value: "CACHE_TTL = 300000"
  by (simp add: CACHE_TTL_def)

lemma remote_calls_updateBadge [simp]: "remote_calls (updateBadge r tabId) = 0"
  by (simp add: remote_calls_def updateBadge_def Let_def)

lemma remote_calls_showNotification [simp]: "remote_calls (showNotification url res env) = 0"
  by (cases "showNotifications env = Some False"; cases "hostname env")
     (simp_all add: remote_calls_def showNotification_def)

lemma remote_calls_append [simp]: "remote_calls (xs @ ys) = remote_calls xs + remote_calls ys"
  by (simp add: remote_calls_def)

lemma remote_calls_Cons [simp]:
  "remote_calls (e # evs) = (if is_fetch e then 1 else 0) + remote_calls evs"
  by (simp add: remote_calls_def)

lemma remote_calls_Nil [simp]: "remote_calls [] = 0"
  by (simp add: remote_calls_def)

lemma fresh_stale:
  "Map_get m k = Some c \<Longrightarrow> now - timestamp c > CACHE_TTL \<Longrightarrow> fresh now (Map_get m k) = None"
  by (simp add: fresh_def)

lemma Map_get_delete [simp]: "Map_get (Map_delete m k) k = None"
  by (simp add: Map_get_def Map_delete_def delete_conv')

text \<open>
  C3. The TTL is 5 minutes. When the entry cached under the lower-cased URL is older
  than the TTL at the cache check, \<^verbatim>\<open>scanUrl\<close> issues exactly one remote request,
  for this URL, and both the value it returns and the events it produces are those of
  the same scan on the cache with the entry deleted: the entry, though still in the
  Map, counts as absent.
\<close>

theorem stale_entry_refetched:
  assumes "Map_get (urlCache w) (toLowerCase url) = Some c"
    and "now_check env - timestamp c > CACHE_TTL"
  shows "CACHE_TTL = 5 * 60 * 1000 \<and>
         remote_calls (new_events w (snd (scanUrl url tabId env w))) = 1 \<and>
         Fetch url \<in> set (new_events w (snd (scanUrl url tabId env w))) \<and>
         fst (scanUrl url tabId env w) =
           fst (scanUrl url tabId env (w\<lparr>urlCache := Map_delete (urlCache w) (toLowerCase url)\<rparr>)) \<and>
         new_events w (snd (scanUrl url tabId env w)) =
           new_events (w\<lparr>urlCache := Map_delete (urlCache w) (toLowerCase url)\<rparr>)
             (snd (scanUrl url tabId env (w\<lparr>urlCache := Map_delete (urlCache w) (toLowerCase url)\<rparr>)))"
proof -
  let ?w' = "w\<lparr>urlCache := Map_delete (urlCache w) (toLowerCase url)\<rparr>"
  have f: "fresh (now_check env) (Map_get (urlCache w) (toLowerCase url)) = None"
    using assms by (rule fresh_stale)
  have f': "fresh (now_check env) (Map_get (urlCache ?w') (toLowerCase url)) = None"
    by (simp add: fresh_def)
  show ?thesis
  proof (cases "throws (fetched env)")
    case True
    show ?thesis
      by (simp add: scanUrl_throw [OF f True] scanUrl_throw [OF f' True] CACHE_TTL_def)
  next
    case False
    then obtain status res where r: "fetched env = Json status (JObject res)"
      and e: "\<not> truthy (error res)" by (rule not_throws)
    show ?thesis
      by (simp add: scanUrl_stored [OF f r e] scanUrl_stored [OF f' r e] CACHE_TTL_def)
  qed
qed

lemma lower_example: "toLowerCase ''http://EXAMPLE.com/a'' = ''http://example.com/a''"
  by code_simp

theorem stale_entry_refetched_witness:
  "Map_get (urlCache stale_worker) (toLowerCase ''http://EXAMPLE.com/a'') =
     Some \<lparr>result = safe_verdict, timestamp = 0\<rparr> \<and>
   now_check (env_at 300001 (Json 200 (JObject malicious_verdict)) ''example.com'') -
     timestamp \<lparr>result = safe_verdict, timestamp = 0\<rparr> > CACHE_TTL \<and>
   remote_calls (new_events stale_worker (snd (scanUrl ''http://EXAMPLE.com/a'' (Some 1)
     (env_at 300001 (Json 200 (JObject malicious_verdict)) ''example.com'') stale_worker))) = 1 \<and>
   fst (scanUrl ''http://EXAMPLE.com/a'' (Some 1)
     (env_at 300001 (Json 200 (JObject malicious_verdict)) ''example.com'') stale_worker) =
     Inr (Some malicious_verdict)"
proof -
  let ?env = "env_at 300001 (Json 200 (JObject malicious_verdict)) ''example.com''"
  let ?c = "\<lparr>result = safe_verdict, timestamp = 0\<rparr>"
  have h1: "Map_get (urlCache stale_worker) (toLowerCase ''http://EXAMPLE.com/a'') = Some ?c"
    by (simp add: stale_worker_def Map_get_def lower_example)
  have h2: "now_check ?env - timestamp ?c > CACHE_TTL"
    by (simp add: env_at_def CACHE_TTL_def)
  have f: "fetched ?env = Json 200 (JObject malicious_verdict)"
    by (simp add: env_at_def)
  have e: "\<not> truthy (error malicious_verdict)"
    by (simp add: malicious_verdict_def truthy_def)
  have r: "fst (scanUrl ''http://EXAMPLE.com/a'' (Some 1) ?env stale_worker) =
     Inr (Some malicious_verdict)"
    by (simp add: scanUrl_stored [OF fresh_stale [OF h1 h2] f e])
  have n: "remote_calls (new_events stale_worker
     (snd (scanUrl ''http://EXAMPLE.com/a'' (Some 1) ?env stale_worker))) = 1"
    using stale_entry_refetched [OF h1 h2, of "Some 1"] by blast
  show ?thesis
    using h1 h2 n r by blast
qed

subsection \<open>A stored entry survives the sweeps\<close>

lemma insort_key_snoc:
  "f x \<le> f y \<Longrightarrow> insort_key f x (zs @ [y]) = insort_key f x zs @ [y]"
  by (induction zs) auto

lemma sort_key_snoc:
  "\<forall>x\<in>set xs. f x \<le> f y \<Longrightarrow> sort_key f (xs @ [y]) = sort_key f xs @ [y]"
  by (induction xs) (auto simp: insort_key_snoc)

lemma Map_set_new: "k \<notin> fst ` set m \<Longrightarrow> Map_set m k v = m @ [(k, v)]"
  by (induction m) (auto simp: Map_set_def)

lemma length_Map_set_old: "k \<in> fst ` set m \<Longrightarrow> length (Map_set m k v) = length m"
  by (induction m) (auto simp: Map_set_def)

lemma Map_set_mem: "(k, v) \<in> set (Map_set m k v)"
  by (induction m) (auto simp: Map_set_def)

lemma Map_get_mem: "distinct (map fst m) \<Longrightarrow> (k, v) \<in> set m \<Longrightarrow> Map_get m k = Some v"
  by (simp add: Map_get_def)

lemma length_sweepExpired: "length (sweepExpired now m) \<le> length m"
  by (simp add: sweepExpired_def)

lemma sweepExpired_append:
  "sweepExpired now (xs @ ys) = sweepExpired now xs @ sweepExpired now ys"
  by (simp add: sweepExpired_def)

lemma sweepExpired_subset: "set (sweepExpired now m) \<subseteq> set m"
  by (auto simp: sweepExpired_def)

text \<open>
  A stored entry is still there after \<^verbatim>\<open>cleanCache\<close>, provided the clock has not run
  backwards since the older entries were stored and the entry is not already expired when
  the sweep reads the clock.
\<close>

lemma cachePut_get:
  assumes d: "distinct (map fst m)" and n: "length m \<le> 1000"
    and old: "\<forall>e\<in>set m. timestamp (snd e) \<le> t_store"
    and young: "t_clean - t_store \<le> CACHE_TTL"
  shows "Map_get (cachePut key res t_store t_clean m) key =
           Some \<lparr>result = res, timestamp = t_store\<rparr>"
proof -
  let ?e = "\<lparr>result = res, timestamp = t_store\<rparr>"
  let ?f = "\<lambda>e. timestamp (snd e)"
  let ?stored = "Map_set m key ?e"
  let ?left = "sweepExpired t_clean ?stored"
  have ne: "\<not> expired t_clean ?e" using young by (simp add: expired_def)
  have dl: "distinct (map fst ?left)"
    using d by (simp add: distinct_sweepExpired distinct_Map_set)
  have ml: "(key, ?e) \<in> set ?left"
    using Map_set_mem [of key ?e m] ne by (simp add: sweepExpired_def)
  have eq: "cachePut key res t_store t_clean m = limitSize ?left"
    by (simp add: cachePut_def cleanCache_def)
  have "(key, ?e) \<in> set (limitSize ?left)"
  proof (cases "length ?left > 1000")
    case False
    then show ?thesis using ml by (simp add: limitSize_small)
  next
    case True
    have new: "key \<notin> fst ` set m"
    proof
      assume "key \<in> fst ` set m"
      then have "length ?stored = length m" by (rule length_Map_set_old)
      with length_sweepExpired [of t_clean ?stored] n True show False by simp
    qed
    let ?kept = "sweepExpired t_clean m"
    have left: "?left = ?kept @ [(key, ?e)]"
      using ne by (simp add: Map_set_new [OF new] sweepExpired_append) (simp add: sweepExpired_def)
    have "\<forall>x\<in>set ?kept. ?f x \<le> ?f (key, ?e)"
      using old sweepExpired_subset [of t_clean m] by auto
    then have sorted: "sort_key ?f ?left = sort_key ?f ?kept @ [(key, ?e)]"
      unfolding left by (rule sort_key_snoc)
    have "set (take (length ?left - 500) (sort_key ?f ?left)) \<subseteq> set ?kept"
    proof -
      have "length ?left - 500 \<le> length (sort_key ?f ?kept)" using left by simp
      then have "take (length ?left - 500) (sort_key ?f ?left) =
                 take (length ?left - 500) (sort_key ?f ?kept)"
        unfolding sorted by simp
      then show ?thesis using set_take_subset [of "length ?left - 500" "sort_key ?f ?kept"]
        by simp
    qed
    moreover have "(key, ?e) \<notin> set ?kept"
      using new sweepExpired_subset [of t_clean m] by force
    ultimately have "(key, ?e) \<notin> set (take (length ?left - 500) (sort_key ?f ?left))"
      by blast
    with ml show ?thesis by (simp add: limitSize_eq [OF dl True])
  qed
  moreover have "distinct (map fst (limitSize ?left))" using dl by (rule distinct_limitSize)
  ultimately show ?thesis unfolding eq by (rule Map_get_mem [rotated])
qed

subsection \<open>A store that exceeds the maximum without a capacity sweep\<close>

lemma lower_new: "toLowerCase ''http://new.example/'' = ''http://new.example/''"
  by code_simp

lemma length_filter_ge_upt: "length (filter (\<lambda>i. a \<le> i) [0..<n]) = n - a"
  by (induction n) auto

lemma full_cache_one_expired: "length (sweepExpired 300001 full_cache) = 999"
proof -
  have "\<And>i::nat. (\<not> expired 300001 \<lparr>result = safe_verdict, timestamp = int i\<rparr>) = (1 \<le> i)"
    by (auto simp: expired_def CACHE_TTL_def)
  then have "length (sweepExpired 300001 full_cache) =
      length (filter (\<lambda>i. 1 \<le> i) [0..<1000])"
    by (simp add: full_cache_def sweepExpired_def filter_map comp_def)
  also have "\<dots> = 999"
    by (simp only: length_filter_ge_upt)
  finally show ?thesis .
qed

text \<open>
  Against C2 as stated: a Map of 1000 entries stored at the clock readings 0 to 999, and a
  store of a new key at the reading 300001. The insertion takes the Map to 1001 entries;
  the purge of \<^verbatim>\<open>cleanCache\<close> removes the one entry that has expired, the test
  \<^verbatim>\<open>urlCache.size > 1000\<close> fails, and 1000 entries are left, not 500.
\<close>

theorem cache_capacity_counterexample:
  "distinct (map fst full_cache) \<and> length full_cache = 1000 \<and>
   length (Map_set full_cache ''http://new.example/''
     \<lparr>result = safe_verdict, timestamp = 300001\<rparr>) = 1001 \<and>
   length (cachePut ''http://new.example/'' safe_verdict 300001 300001 full_cache) = 1000 \<and>
   length (urlCache (snd (scanUrl ''http://new.example/'' (Some 1)
     (env_at 300001 (Json 200 (JObject safe_verdict)) ''new.example'')
     \<lparr>urlCache = full_cache, trace = []\<rparr>))) = 1000"
proof -
  let ?e = "\<lparr>result = safe_verdict, timestamp = 300001\<rparr>"
  let ?k = "''http://new.example/''"
  let ?env = "env_at 300001 (Json 200 (JObject safe_verdict)) ''new.example''"
  let ?w = "\<lparr>urlCache = full_cache, trace = []\<rparr>"
  have d: "distinct (map fst full_cache)" by (rule distinct_full_cache)
  have l: "length full_cache = 1000" by (simp add: full_cache_def)
  have stored: "Map_set full_cache ?k ?e = full_cache @ [(?k, ?e)]"
    using new_key_full_cache by (rule Map_set_new)
  have s: "length (Map_set full_cache ?k ?e) = 1001" by (simp add: stored l)
  have "sweepExpired 300001 [(?k, ?e)] = [(?k, ?e)]"
    by (simp add: sweepExpired_def expired_def CACHE_TTL_def)
  then have "length (sweepExpired 300001 (Map_set full_cache ?k ?e)) = 1000"
    by (simp add: stored sweepExpired_append full_cache_one_expired)
  then have p: "length (cachePut ?k safe_verdict 300001 300001 full_cache) = 1000"
    by (simp add: cachePut_def cleanCache_def limitSize_small)
  have "Map_get full_cache ?k = None"
    using new_key_full_cache by (simp add: Map_get_def map_of_eq_None_iff)
  then have miss: "fresh (now_check ?env) (Map_get (urlCache ?w) (toLowerCase ?k)) = None"
    by (simp add: lower_new fresh_def)
  have f: "fetched ?env = Json 200 (JObject safe_verdict)" by (simp add: env_at_def)
  have e: "\<not> truthy (error safe_verdict)" by (simp add: safe_verdict_def truthy_def)
  have "urlCache (snd (scanUrl ?k (Some 1) ?env ?w)) =
      cachePut ?k safe_verdict 300001 300001 full_cache"
    by (simp add: scanUrl_stored [OF miss f e] lower_new) (simp add: env_at_def)
  with p have c: "length (urlCache (snd (scanUrl ?k (Some 1) ?env ?w))) = 1000" by simp
  show ?thesis using d l s p c by blast
qed

subsection \<open>Scans answered from the cache\<close>

lemma toLowerCase_char_idem: "toLowerCase_char (toLowerCase_char c) = toLowerCase_char c"
  by (auto simp add: toLowerCase_char_def Let_def)

lemma toLowerCase_idem: "toLowerCase (toLowerCase s) = toLowerCase s"
  by (simp add: toLowerCase_def toLowerCase_char_idem)

lemma fresh_young:
  "now - timestamp c < CACHE_TTL \<Longrightarrow> fresh now (Some c) = Some c"
  by (simp add: fresh_def)

text \<open>
  C7. When the Map holds, under the lower-cased URL, an entry younger than the TTL,
  \<^verbatim>\<open>scanUrl\<close> returns the cached verdict, issues no remote request, leaves the cache
  as it is, and its events are the loading badge, the cache lookup and the badge of the
  cached risk; the same holds for every URL that differs from this one in letter case
  only. In particular, after a scan that stored a verdict (in a cache of at most 1000
  entries with distinct keys, read with a clock that has not run backwards), a scan of a
  URL with the same lower-cased form whose cache check comes less than 1000 ms after the
  store returns that verdict without a remote request.
\<close>

theorem cache_hit_no_remote_call:
  "(fresh (now_check env) (Map_get (urlCache w) (toLowerCase url)) = Some c \<longrightarrow>
      fst (scanUrl url tabId env w) = Inr (Some (result c)) \<and>
      remote_calls (new_events w (snd (scanUrl url tabId env w))) = 0 \<and>
      new_events w (snd (scanUrl url tabId env w)) =
        [SetBadgeText (Some ''...'') tabId,
         SetBadgeBackgroundColor (BADGE_COLORS ''loading'') tabId,
         CacheGet (toLowerCase url)] @ updateBadge (risk (result c)) tabId \<and>
      urlCache (snd (scanUrl url tabId env w)) = urlCache w \<and>
      (\<forall>url'. toLowerCase url' = toLowerCase url \<longrightarrow>
         fst (scanUrl url' tabId env w) = Inr (Some (result c)) \<and>
         remote_calls (new_events w (snd (scanUrl url' tabId env w))) = 0)) \<and>
   (distinct (map fst (urlCache w0)) \<and> length (urlCache w0) \<le> 1000 \<and>
    (\<forall>e\<in>set (urlCache w0). timestamp (snd e) \<le> now_store env1) \<and>
    now_clean env1 - now_store env1 \<le> CACHE_TTL \<and>
    fresh (now_check env1) (Map_get (urlCache w0) (toLowerCase url1)) = None \<and>
    fetched env1 = Json status (JObject res) \<and> \<not> truthy (error res) \<and>
    toLowerCase url2 = toLowerCase url1 \<and>
    now_check env2 - now_store env1 < 1000 \<longrightarrow>
      fst (scanUrl url1 tabId1 env1 w0) = Inr (Some res) \<and>
      fst (scanUrl url2 tabId2 env2 (snd (scanUrl url1 tabId1 env1 w0))) = Inr (Some res) \<and>
      remote_calls (new_events (snd (scanUrl url1 tabId1 env1 w0))
        (snd (scanUrl url2 tabId2 env2 (snd (scanUrl url1 tabId1 env1 w0))))) = 0)"
proof (intro conjI impI)
  assume f: "fresh (now_check env) (Map_get (urlCache w) (toLowerCase url)) = Some c"
  show "fst (scanUrl url tabId env w) = Inr (Some (result c))"
    by (simp add: scanUrl_hit [OF f])
  show "remote_calls (new_events w (snd (scanUrl url tabId env w))) = 0"
    by (simp add: scanUrl_hit [OF f])
  show "new_events w (snd (scanUrl url tabId env w)) =
        [SetBadgeText (Some ''...'') tabId,
         SetBadgeBackgroundColor (BADGE_COLORS ''loading'') tabId,
         CacheGet (toLowerCase url)] @ updateBadge (risk (result c)) tabId"
    by (simp add: scanUrl_hit [OF f])
  show "urlCache (snd (scanUrl url tabId env w)) = urlCache w"
    by (simp add: scanUrl_hit [OF f])
  show "\<forall>url'. toLowerCase url' = toLowerCase url \<longrightarrow>
         fst (scanUrl url' tabId env w) = Inr (Some (result c)) \<and>
         remote_calls (new_events w (snd (scanUrl url' tabId env w))) = 0"
  proof (intro allI impI)
    fix url' assume "toLowerCase url' = toLowerCase url"
    with f have "fresh (now_check env) (Map_get (urlCache w) (toLowerCase url')) = Some c"
      by simp
    then show "fst (scanUrl url' tabId env w) = Inr (Some (result c)) \<and>
         remote_calls (new_events w (snd (scanUrl url' tabId env w))) = 0"
      by (simp add: scanUrl_hit)
  qed
next
  assume h: "distinct (map fst (urlCache w0)) \<and> length (urlCache w0) \<le> 1000 \<and>
    (\<forall>e\<in>set (urlCache w0). timestamp (snd e) \<le> now_store env1) \<and>
    now_clean env1 - now_store env1 \<le> CACHE_TTL \<and>
    fresh (now_check env1) (Map_get (urlCache w0) (toLowerCase url1)) = None \<and>
    fetched env1 = Json status (JObject res) \<and> \<not> truthy (error res) \<and>
    toLowerCase url2 = toLowerCase url1 \<and>
    now_check env2 - now_store env1 < 1000"
  let ?w1 = "snd (scanUrl url1 tabId1 env1 w0)"
  let ?c = "\<lparr>result = res, timestamp = now_store env1\<rparr>"
  from h have miss: "fresh (now_check env1) (Map_get (urlCache w0) (toLowerCase url1)) = None"
    and ok: "fetched env1 = Json status (JObject res)" and ne: "\<not> truthy (error res)"
    by simp_all
  have first: "scanUrl url1 tabId1 env1 w0 =
    (Inr (Some res),
     \<lparr>urlCache = cachePut (toLowerCase url1) res (now_store env1) (now_clean env1) (urlCache w0),
      trace = trace w0 @
        [SetBadgeText (Some ''...'') tabId1,
         SetBadgeBackgroundColor (BADGE_COLORS ''loading'') tabId1,
         CacheGet (toLowerCase url1),
         Fetch url1] @ updateBadge (risk res) tabId1 @
        (if risk res = Some ''malicious'' then showNotification url1 res env1 else [])\<rparr>)"
    using miss ok ne by (rule scanUrl_stored)
  have "Map_get (urlCache ?w1) (toLowerCase url1) = Some ?c"
    using h by (simp add: first cachePut_get)
  moreover have "now_check env2 - timestamp ?c < CACHE_TTL"
    using h by (simp add: CACHE_TTL_def)
  ultimately have hit: "fresh (now_check env2) (Map_get (urlCache ?w1) (toLowerCase url2)) = Some ?c"
    using h by (simp add: fresh_young)
  show "fst (scanUrl url1 tabId1 env1 w0) = Inr (Some res)" by (simp add: first)
  show "fst (scanUrl url2 tabId2 env2 ?w1) = Inr (Some res)"
    by (simp add: scanUrl_hit [OF hit])
  show "remote_calls (new_events ?w1 (snd (scanUrl url2 tabId2 env2 ?w1))) = 0"
    by (simp add: scanUrl_hit [OF hit])
qed


lemma lower_example': "toLowerCase ''http://example.com/a'' = ''http://example.com/a''"
  by code_simp

lemma malicious_badge:
  "updateBadge (Some ''malicious'') tabId =
     [SetBadgeText (Some ballot_x) tabId, SetBadgeBackgroundColor (Some ''#ef4444'') tabId]"
  by (simp add: updateBadge_def badge_lookup_def badgeConfig_def BADGE_COLORS_def)

theorem cache_hit_no_remote_call_witness:
  "urlCache stale_worker =
     [(''http://example.com/a'', \<lparr>result = safe_verdict, timestamp = 0\<rparr>)] \<and>
   fst (scanUrl ''http://EXAMPLE.com/a'' (Some 1)
          (env_at 300001 (Json 200 (JObject malicious_verdict)) ''example.com'') stale_worker) =
     Inr (Some malicious_verdict) \<and>
   fresh (now_check (env_at 300900 FetchRejected ''example.com''))
     (Map_get (urlCache (snd (scanUrl ''http://EXAMPLE.com/a'' (Some 1)
          (env_at 300001 (Json 200 (JObject malicious_verdict)) ''example.com'') stale_worker)))
        (toLowerCase ''http://example.com/a'')) =
     Some \<lparr>result = malicious_verdict, timestamp = 300001\<rparr> \<and>
   fst (scanUrl ''http://example.com/a'' (Some 1) (env_at 300900 FetchRejected ''example.com'')
          (snd (scanUrl ''http://EXAMPLE.com/a'' (Some 1)
             (env_at 300001 (Json 200 (JObject malicious_verdict)) ''example.com'') stale_worker))) =
     Inr (Some malicious_verdict) \<and>
   new_events
     (snd (scanUrl ''http://EXAMPLE.com/a'' (Some 1)
             (env_at 300001 (Json 200 (JObject malicious_verdict)) ''example.com'') stale_worker))
     (snd (scanUrl ''http://example.com/a'' (Some 1) (env_at 300900 FetchRejected ''example.com'')
          (snd (scanUrl ''http://EXAMPLE.com/a'' (Some 1)
             (env_at 300001 (Json 200 (JObject malicious_verdict)) ''example.com'') stale_worker)))) =
     [SetBadgeText (Some ''...'') (Some 1),
      SetBadgeBackgroundColor (Some ''#3b82f6'') (Some 1),
      CacheGet ''http://example.com/a'',
      SetBadgeText (Some ballot_x) (Some 1),
      SetBadgeBackgroundColor (Some ''#ef4444'') (Some 1)]"
proof -
  let ?env1 = "env_at 300001 (Json 200 (JObject malicious_verdict)) ''example.com''"
  let ?env2 = "env_at 300900 FetchRejected ''example.com''"
  let ?w1 = "snd (scanUrl ''http://EXAMPLE.com/a'' (Some 1) ?env1 stale_worker)"
  let ?c = "\<lparr>result = malicious_verdict, timestamp = 300001\<rparr>"
  have c0: "urlCache stale_worker =
     [(''http://example.com/a'', \<lparr>result = safe_verdict, timestamp = 0\<rparr>)]"
    by (simp add: stale_worker_def)
  have b1: "distinct (map fst (urlCache stale_worker))" by (simp add: c0)
  have b2: "length (urlCache stale_worker) \<le> 1000" by (simp add: c0)
  have b3: "\<forall>e\<in>set (urlCache stale_worker). timestamp (snd e) \<le> now_store ?env1"
    by (simp add: c0 env_at_def)
  have b4: "now_clean ?env1 - now_store ?env1 \<le> CACHE_TTL"
    by (simp add: env_at_def CACHE_TTL_def)
  have b5: "fresh (now_check ?env1)
      (Map_get (urlCache stale_worker) (toLowerCase ''http://EXAMPLE.com/a'')) = None"
    by (simp add: c0 lower_example Map_get_def fresh_def env_at_def CACHE_TTL_def)
  have b6: "fetched ?env1 = Json 200 (JObject malicious_verdict)" by (simp add: env_at_def)
  have b7: "\<not> truthy (error malicious_verdict)"
    by (simp add: malicious_verdict_def truthy_def)
  have b8: "toLowerCase ''http://example.com/a'' = toLowerCase ''http://EXAMPLE.com/a''"
    by (simp add: lower_example lower_example')
  have b9: "now_check ?env2 - now_store ?env1 < 1000" by (simp add: env_at_def)
  note inst = cache_hit_no_remote_call [of ?env2 ?w1 "''http://example.com/a''" ?c "Some 1"
      stale_worker ?env1 "''http://EXAMPLE.com/a''" 200 malicious_verdict
      "''http://example.com/a''" ?env2 "Some 1" "Some 1"]
  have first: "fst (scanUrl ''http://EXAMPLE.com/a'' (Some 1) ?env1 stale_worker) =
     Inr (Some malicious_verdict)"
    using inst b1 b2 b3 b4 b5 b6 b7 b8 b9 by blast
  have "urlCache ?w1 = cachePut ''http://example.com/a'' malicious_verdict 300001 300001
          (urlCache stale_worker)"
    by (simp add: scanUrl_stored [OF b5 b6 b7] lower_example) (simp add: env_at_def)
  then have "Map_get (urlCache ?w1) ''http://example.com/a'' = Some ?c"
    using cachePut_get [OF b1 b2, of 300001 300001 "''http://example.com/a''" malicious_verdict]
    by (simp add: c0 CACHE_TTL_def)
  then have hit: "fresh (now_check ?env2)
      (Map_get (urlCache ?w1) (toLowerCase ''http://example.com/a'')) = Some ?c"
    by (simp add: lower_example' fresh_def env_at_def CACHE_TTL_def)
  have second: "fst (scanUrl ''http://example.com/a'' (Some 1) ?env2 ?w1) =
      Inr (Some malicious_verdict)"
    using inst hit by simp
  have evs: "new_events ?w1 (snd (scanUrl ''http://example.com/a'' (Some 1) ?env2 ?w1)) =
     [SetBadgeText (Some ''...'') (Some 1),
      SetBadgeBackgroundColor (Some ''#3b82f6'') (Some 1),
      CacheGet ''http://example.com/a'',
      SetBadgeText (Some ballot_x) (Some 1),
      SetBadgeBackgroundColor (Some ''#ef4444'') (Some 1)]"
    using inst hit
    by (simp add: lower_example' loading_color malicious_badge malicious_verdict_def)
  show ?thesis using c0 first hit second evs by blast
qed

subsection \<open>Failures of the remote call\<close>

lemma cachePut_first:
  "t_clean - t_store \<le> CACHE_TTL \<Longrightarrow>
   cachePut key res t_store t_clean [] = [(key, \<lparr>result = res, timestamp = t_store\<rparr>)]"
  by (simp add: cachePut_def cleanCache_def Map_set_def sweepExpired_def expired_def
      limitSize_def)

lemma unknown_badge:
  "updateBadge None tabId =
     [SetBadgeText (Some ''?'') tabId, SetBadgeBackgroundColor (Some ''#6b7280'') tabId]"
  by (simp add: updateBadge_def badge_lookup_def BADGE_COLORS_def)

lemma safe_badge:
  "updateBadge (Some ''safe'') tabId =
     [SetBadgeText (Some check_mark) tabId, SetBadgeBackgroundColor (Some ''#10b981'') tabId]"
  by (simp add: updateBadge_def badge_lookup_def badgeConfig_def BADGE_COLORS_def)

lemma fresh_startup: "fresh now (Map_get (urlCache startup) k) = None"
  by (simp add: startup_def Map_get_def fresh_def)

text \<open>
  Against C4 as stated: a response with HTTP status 500 whose body is an object without
  any of the expected fields is stored in the cache and returned, and the badge becomes
  \<^verbatim>\<open>?\<close>; so is a body whose \<^verbatim>\<open>error\<close> field is the empty string.
\<close>

theorem scanUrl_failure_counterexample:
  "scanUrl ''http://example.com/a'' (Some 1)
     (env_at 1000 (Json 500 (JObject empty_verdict)) ''example.com'') startup =
     (Inr (Some empty_verdict),
      \<lparr>urlCache = [(''http://example.com/a'', \<lparr>result = empty_verdict, timestamp = 1000\<rparr>)],
       trace =
         [SetBadgeText (Some ''...'') (Some 1),
          SetBadgeBackgroundColor (Some ''#3b82f6'') (Some 1),
          CacheGet ''http://example.com/a'',
          Fetch ''http://example.com/a'',
          SetBadgeText (Some ''?'') (Some 1),
          SetBadgeBackgroundColor (Some ''#6b7280'') (Some 1)]\<rparr>) \<and>
   error blank_error_verdict = Some [] \<and>
   scanUrl ''http://example.com/a'' (Some 1)
     (env_at 1000 (Json 200 (JObject blank_error_verdict)) ''example.com'') startup =
     (Inr (Some blank_error_verdict),
      \<lparr>urlCache = [(''http://example.com/a'', \<lparr>result = blank_error_verdict, timestamp = 1000\<rparr>)],
       trace =
         [SetBadgeText (Some ''...'') (Some 1),
          SetBadgeBackgroundColor (Some ''#3b82f6'') (Some 1),
          CacheGet ''http://example.com/a'',
          Fetch ''http://example.com/a'',
          SetBadgeText (Some check_mark) (Some 1),
          SetBadgeBackgroundColor (Some ''#10b981'') (Some 1)]\<rparr>)"
proof -
  have 1: "fetched (env_at 1000 (Json 500 (JObject empty_verdict)) ''example.com'') =
      Json 500 (JObject empty_verdict)"
    by (simp add: env_at_def)
  have 2: "\<not> truthy (error empty_verdict)" by (simp add: empty_verdict_def truthy_def)
  have 3: "fetched (env_at 1000 (Json 200 (JObject blank_error_verdict)) ''example.com'') =
      Json 200 (JObject blank_error_verdict)"
    by (simp add: env_at_def)
  have 4: "\<not> truthy (error blank_error_verdict)"
    by (simp add: blank_error_verdict_def truthy_def)
  have a: "scanUrl ''http://example.com/a'' (Some 1)
     (env_at 1000 (Json 500 (JObject empty_verdict)) ''example.com'') startup =
     (Inr (Some empty_verdict),
      \<lparr>urlCache = [(''http://example.com/a'', \<lparr>result = empty_verdict, timestamp = 1000\<rparr>)],
       trace =
         [SetBadgeText (Some ''...'') (Some 1),
          SetBadgeBackgroundColor (Some ''#3b82f6'') (Some 1),
          CacheGet ''http://example.com/a'',
          Fetch ''http://example.com/a'',
          SetBadgeText (Some ''?'') (Some 1),
          SetBadgeBackgroundColor (Some ''#6b7280'') (Some 1)]\<rparr>)"
    by (simp add: scanUrl_stored [OF fresh_startup 1 2] lower_example' loading_color)
       (simp add: env_at_def startup_def cachePut_first CACHE_TTL_def empty_verdict_def
          unknown_badge)
  have b: "scanUrl ''http://example.com/a'' (Some 1)
     (env_at 1000 (Json 200 (JObject blank_error_verdict)) ''example.com'') startup =
     (Inr (Some blank_error_verdict),
      \<lparr>urlCache = [(''http://example.com/a'', \<lparr>result = blank_error_verdict, timestamp = 1000\<rparr>)],
       trace =
         [SetBadgeText (Some ''...'') (Some 1),
          SetBadgeBackgroundColor (Some ''#3b82f6'') (Some 1),
          CacheGet ''http://example.com/a'',
          Fetch ''http://example.com/a'',
          SetBadgeText (Some check_mark) (Some 1),
          SetBadgeBackgroundColor (Some ''#10b981'') (Some 1)]\<rparr>)"
    by (simp add: scanUrl_stored [OF fresh_startup 3 4] lower_example' loading_color)
       (simp add: env_at_def startup_def cachePut_first CACHE_TTL_def blank_error_verdict_def
          safe_badge)
  show ?thesis using a b by (simp add: blank_error_verdict_def)
qed

text \<open>
  C4, amended. When no fresh entry answers the scan and the remote call throws (the fetch
  rejects, the body is not JSON, the body is \<^verbatim>\<open>null\<close>, or the body has a non-empty
  \<^verbatim>\<open>error\<close> field, whatever the HTTP status), \<^verbatim>\<open>scanUrl\<close> resolves to
  \<^verbatim>\<open>null\<close>, leaves the cache as it was, has issued exactly one request, and its last
  two events set the badge text \<^verbatim>\<open>!\<close> and the error colour.
\<close>

theorem scanUrl_failure:
  assumes "fresh (now_check env) (Map_get (urlCache w) (toLowerCase url)) = None"
    and "throws (fetched env)"
  shows "fst (scanUrl url tabId env w) = Inr None \<and>
         urlCache (snd (scanUrl url tabId env w)) = urlCache w \<and>
         remote_calls (new_events w (snd (scanUrl url tabId env w))) = 1 \<and>
         new_events w (snd (scanUrl url tabId env w)) =
           [SetBadgeText (Some ''...'') tabId,
            SetBadgeBackgroundColor (Some ''#3b82f6'') tabId,
            CacheGet (toLowerCase url),
            Fetch url,
            ConsoleError,
            SetBadgeText (Some ''!'') tabId,
            SetBadgeBackgroundColor (Some ''#6b7280'') tabId]"
  by (simp add: scanUrl_throw [OF assms] loading_color error_color)

theorem scanUrl_failure_witness:
  "fresh (now_check (env_at 1000 FetchRejected ''example.com''))
     (Map_get (urlCache startup) (toLowerCase ''http://example.com/a'')) = None \<and>
   throws (fetched (env_at 1000 FetchRejected ''example.com'')) \<and>
   fst (scanUrl ''http://example.com/a'' (Some 1)
          (env_at 1000 FetchRejected ''example.com'') startup) = Inr None \<and>
   urlCache (snd (scanUrl ''http://example.com/a'' (Some 1)
          (env_at 1000 FetchRejected ''example.com'') startup)) = []"
proof -
  have h1: "fresh (now_check (env_at 1000 FetchRejected ''example.com''))
     (Map_get (urlCache startup) (toLowerCase ''http://example.com/a'')) = None"
    by (rule fresh_startup)
  have h2: "throws (fetched (env_at 1000 FetchRejected ''example.com''))"
    by (simp add: env_at_def)
  show ?thesis
    using h1 h2 scanUrl_failure [OF h1 h2, of "Some 1"] by (simp add: startup_def)
qed

subsection \<open>Notifications\<close>

lemma alerts_Nil [simp]: "alerts [] = 0"
  by (simp add: alerts_def)

lemma alerts_Cons [simp]: "alerts (e # evs) = (if is_alert e then 1 else 0) + alerts evs"
  by (simp add: alerts_def)

lemma alerts_append [simp]: "alerts (xs @ ys) = alerts xs + alerts ys"
  by (simp add: alerts_def)

lemma alerts_updateBadge [simp]: "alerts (updateBadge r tabId) = 0"
  by (simp add: updateBadge_def Let_def)

lemma alerts_showNotification:
  "alerts (showNotification url res env) =
     (if showNotifications env = Some False then 0
      else if hostname env = None then 0 else 1)"
  by (cases "showNotifications env = Some False"; cases "hostname env")
     (simp_all add: showNotification_def)

text \<open>
  Against C1 as stated: with notifications enabled, a first scan of a URL fetches a
  verdict whose risk is \<^verbatim>\<open>malicious\<close> and creates one notification; a second scan of
  the URL, 500 ms later, is answered from the cache, returns the same verdict and creates
  no notification.
\<close>

theorem malicious_alert_counterexample:
  "fst (scanUrl ''http://example.com/a'' (Some 1)
          (env_at 0 (Json 200 (JObject malicious_verdict)) ''example.com'') startup) =
     Inr (Some malicious_verdict) \<and>
   alerts (new_events startup (snd (scanUrl ''http://example.com/a'' (Some 1)
          (env_at 0 (Json 200 (JObject malicious_verdict)) ''example.com'') startup))) = 1 \<and>
   showNotifications (env_at 500 (Json 200 (JObject malicious_verdict)) ''example.com'') =
     Some True \<and>
   risk malicious_verdict = Some ''malicious'' \<and>
   fst (scanUrl ''http://example.com/a'' (Some 1)
          (env_at 500 (Json 200 (JObject malicious_verdict)) ''example.com'')
          (snd (scanUrl ''http://example.com/a'' (Some 1)
             (env_at 0 (Json 200 (JObject malicious_verdict)) ''example.com'') startup))) =
     Inr (Some malicious_verdict) \<and>
   alerts (new_events
     (snd (scanUrl ''http://example.com/a'' (Some 1)
             (env_at 0 (Json 200 (JObject malicious_verdict)) ''example.com'') startup))
     (snd (scanUrl ''http://example.com/a'' (Some 1)
             (env_at 500 (Json 200 (JObject malicious_verdict)) ''example.com'')
             (snd (scanUrl ''http://example.com/a'' (Some 1)
                (env_at 0 (Json 200 (JObject malicious_verdict)) ''example.com'') startup))))) = 0"
proof -
  let ?env1 = "env_at 0 (Json 200 (JObject malicious_verdict)) ''example.com''"
  let ?env2 = "env_at 500 (Json 200 (JObject malicious_verdict)) ''example.com''"
  let ?w1 = "snd (scanUrl ''http://example.com/a'' (Some 1) ?env1 startup)"
  have f: "fetched ?env1 = Json 200 (JObject malicious_verdict)" by (simp add: env_at_def)
  have e: "\<not> truthy (error malicious_verdict)"
    by (simp add: malicious_verdict_def truthy_def)
  note first = scanUrl_stored [OF fresh_startup f e, of "''http://example.com/a''" "Some 1"]
  have r1: "fst (scanUrl ''http://example.com/a'' (Some 1) ?env1 startup) =
      Inr (Some malicious_verdict)"
    by (simp add: first)
  have a1: "alerts (new_events startup ?w1) = 1"
    by (simp add: first alerts_showNotification) (simp add: malicious_verdict_def env_at_def)
  have c1: "urlCache ?w1 =
      [(''http://example.com/a'', \<lparr>result = malicious_verdict, timestamp = 0\<rparr>)]"
    by (simp add: first lower_example') (simp add: env_at_def startup_def cachePut_first CACHE_TTL_def)
  have hit: "fresh (now_check ?env2) (Map_get (urlCache ?w1) (toLowerCase ''http://example.com/a'')) =
      Some \<lparr>result = malicious_verdict, timestamp = 0\<rparr>"
    using c1 by (simp add: lower_example' Map_get_def fresh_def env_at_def CACHE_TTL_def)
  have r2: "fst (scanUrl ''http://example.com/a'' (Some 1) ?env2 ?w1) =
      Inr (Some malicious_verdict)"
    by (simp add: scanUrl_hit [OF hit])
  have a2: "alerts (new_events ?w1 (snd (scanUrl ''http://example.com/a'' (Some 1) ?env2 ?w1))) = 0"
    by (simp add: scanUrl_hit [OF hit])
  have s: "showNotifications ?env2 = Some True" by (simp add: env_at_def)
  have m: "risk malicious_verdict = Some ''malicious''" by (simp add: malicious_verdict_def)
  show ?thesis using r1 a1 s m r2 a2 by blast
qed

text \<open>
  C1, amended. A scan that no fresh entry answers and whose remote call gives a body with
  risk \<^verbatim>\<open>malicious\<close> (and no truthy \<^verbatim>\<open>error\<close>) returns that body and creates
  exactly one notification when the stored \<^verbatim>\<open>showNotifications\<close> value is not
  \<^verbatim>\<open>false\<close> (also when the store holds no value) and the URL has a host name, and none
  when the value is \<^verbatim>\<open>false\<close>. A scan answered from the cache creates none.
\<close>

theorem malicious_alert:
  "(fresh (now_check env) (Map_get (urlCache w) (toLowerCase url)) = None \<and>
    fetched env = Json status (JObject res) \<and> \<not> truthy (error res) \<and>
    risk res = Some ''malicious'' \<longrightarrow>
      fst (scanUrl url tabId env w) = Inr (Some res) \<and>
      alerts (new_events w (snd (scanUrl url tabId env w))) =
        (if showNotifications env = Some False then 0
         else if hostname env = None then 0 else 1)) \<and>
   (fresh (now_check env') (Map_get (urlCache w') (toLowerCase url')) = Some c \<longrightarrow>
      fst (scanUrl url' tabId' env' w') = Inr (Some (result c)) \<and>
      alerts (new_events w' (snd (scanUrl url' tabId' env' w'))) = 0)"
proof (intro conjI impI)
  assume h: "fresh (now_check env) (Map_get (urlCache w) (toLowerCase url)) = None \<and>
    fetched env = Json status (JObject res) \<and> \<not> truthy (error res) \<and>
    risk res = Some ''malicious''"
  then have miss: "fresh (now_check env) (Map_get (urlCache w) (toLowerCase url)) = None"
    and ok: "fetched env = Json status (JObject res)" and ne: "\<not> truthy (error res)"
    and mal: "risk res = Some ''malicious''"
    by simp_all
  show "fst (scanUrl url tabId env w) = Inr (Some res)"
    by (simp add: scanUrl_stored [OF miss ok ne])
  show "alerts (new_events w (snd (scanUrl url tabId env w))) =
        (if showNotifications env = Some False then 0
         else if hostname env = None then 0 else 1)"
    by (simp add: scanUrl_stored [OF miss ok ne] mal alerts_showNotification)
next
  assume f: "fresh (now_check env') (Map_get (urlCache w') (toLowerCase url')) = Some c"
  show "fst (scanUrl url' tabId' env' w') = Inr (Some (result c))"
    by (simp add: scanUrl_hit [OF f])
  show "alerts (new_events w' (snd (scanUrl url' tabId' env' w'))) = 0"
    by (simp add: scanUrl_hit [OF f])
qed

theorem malicious_alert_witness:
  "fst (scanUrl ''http://EXAMPLE.com/a'' (Some 1)
          (env_at 0 (Json 200 (JObject malicious_verdict)) ''example.com'') startup) =
     Inr (Some malicious_verdict) \<and>
   alerts (new_events startup (snd (scanUrl ''http://EXAMPLE.com/a'' (Some 1)
          (env_at 0 (Json 200 (JObject malicious_verdict)) ''example.com'') startup))) = 1 \<and>
   alerts (new_events startup (snd (scanUrl ''http://EXAMPLE.com/a'' (Some 1)
          ((env_at 0 (Json 200 (JObject malicious_verdict)) ''example.com'')
             \<lparr>showNotifications := None\<rparr>) startup))) = 1 \<and>
   alerts (new_events startup (snd (scanUrl ''http://EXAMPLE.com/a'' (Some 1)
          ((env_at 0 (Json 200 (JObject malicious_verdict)) ''example.com'')
             \<lparr>showNotifications := Some False\<rparr>) startup))) = 0 \<and>
   fresh (now_check (env_at 500 FetchRejected ''example.com''))
      (Map_get (urlCache malicious_worker) (toLowerCase ''http://example.com/a'')) =
      Some \<lparr>result = malicious_verdict, timestamp = 0\<rparr> \<and>
   alerts (new_events malicious_worker
     (snd (scanUrl ''http://example.com/a'' (Some 1)
             (env_at 500 FetchRejected ''example.com'') malicious_worker))) = 0"
proof -
  let ?env = "env_at 0 (Json 200 (JObject malicious_verdict)) ''example.com''"
  let ?env2 = "env_at 500 FetchRejected ''example.com''"
  have e: "\<not> truthy (error malicious_verdict)"
    by (simp add: malicious_verdict_def truthy_def)
  have m: "risk malicious_verdict = Some ''malicious''"
    by (simp add: malicious_verdict_def)
  have hit: "fresh (now_check ?env2)
      (Map_get (urlCache malicious_worker) (toLowerCase ''http://example.com/a'')) =
      Some \<lparr>result = malicious_verdict, timestamp = 0\<rparr>"
    by (simp add: malicious_worker_def lower_example' Map_get_def fresh_def env_at_def
        CACHE_TTL_def)
  have a: "fst (scanUrl ''http://EXAMPLE.com/a'' (Some 1) ?env startup) =
             Inr (Some malicious_verdict) \<and>
           alerts (new_events startup
             (snd (scanUrl ''http://EXAMPLE.com/a'' (Some 1) ?env startup))) = 1"
    using malicious_alert [of ?env startup "''http://EXAMPLE.com/a''" 200 malicious_verdict
        "Some 1" ?env2 malicious_worker "''http://example.com/a''"] e m
    by (simp add: fresh_startup) (simp add: env_at_def)
  have b: "alerts (new_events startup
             (snd (scanUrl ''http://EXAMPLE.com/a'' (Some 1)
                (?env\<lparr>showNotifications := None\<rparr>) startup))) = 1"
    using malicious_alert [of "?env\<lparr>showNotifications := None\<rparr>" startup
        "''http://EXAMPLE.com/a''" 200 malicious_verdict
        "Some 1" ?env2 malicious_worker "''http://example.com/a''"] e m
    by (simp add: fresh_startup) (simp add: env_at_def)
  have c: "alerts (new_events startup
             (snd (scanUrl ''http://EXAMPLE.com/a'' (Some 1)
                (?env\<lparr>showNotifications := Some False\<rparr>) startup))) = 0"
    using malicious_alert [of "?env\<lparr>showNotifications := Some False\<rparr>" startup
        "''http://EXAMPLE.com/a''" 200 malicious_verdict
        "Some 1" ?env2 malicious_worker "''http://example.com/a''"] e m
    by (simp add: fresh_startup) (simp add: env_at_def)
  have d: "alerts (new_events malicious_worker
     (snd (scanUrl ''http://example.com/a'' (Some 1) ?env2 malicious_worker))) = 0"
    using malicious_alert [of ?env startup "''http://EXAMPLE.com/a''" 200 malicious_verdict
        "Some 1" ?env2 malicious_worker "''http://example.com/a''"
        "\<lparr>result = malicious_verdict, timestamp = 0\<rparr>" "Some 1"] hit
    by simp
  show ?thesis using a b c hit d by blast
qed

subsection \<open>URLs that are not scanned\<close>

lemma lower_ftp: "toLowerCase ''ftp://example.com/file'' = ''ftp://example.com/file''"
  by code_simp

lemma lower_httpx: "toLowerCase ''httpx://example.com/'' = ''httpx://example.com/''"
  by code_simp

text \<open>
  Against C5 as stated: \<^verbatim>\<open>scanUrl\<close> itself tests no scheme, so the
  \<^verbatim>\<open>scanUrl\<close> message scans an \<^verbatim>\<open>ftp:\<close> URL (cache lookup, remote request,
  verdict badge); and the listeners test the prefix \<^verbatim>\<open>http\<close> only, so the activation
  of a tab whose URL starts with \<^verbatim>\<open>httpx://\<close> issues a remote request.
\<close>

theorem ineligible_url_counterexample:
  "\<not> startsWith ''ftp://example.com/file'' ''http://'' \<and>
   \<not> startsWith ''ftp://example.com/file'' ''https://'' \<and>
   onMessage (ScanUrlRequest ''ftp://example.com/file'' (Some 1)) None
     (env_at 1000 (Json 200 (JObject safe_verdict)) ''example.com'') startup =
     (Payload (JObject safe_verdict),
      \<lparr>urlCache = [(''ftp://example.com/file'', \<lparr>result = safe_verdict, timestamp = 1000\<rparr>)],
       trace =
         [SetBadgeText (Some ''...'') (Some 1),
          SetBadgeBackgroundColor (Some ''#3b82f6'') (Some 1),
          CacheGet ''ftp://example.com/file'',
          Fetch ''ftp://example.com/file'',
          SetBadgeText (Some check_mark) (Some 1),
          SetBadgeBackgroundColor (Some ''#10b981'') (Some 1)]\<rparr>) \<and>
   \<not> startsWith ''httpx://example.com/'' ''http://'' \<and>
   \<not> startsWith ''httpx://example.com/'' ''https://'' \<and>
   trace (onActivated (Some \<lparr>tab_url = Some ''httpx://example.com/'', tab_ident = 1\<rparr>)
     (env_at 1000 FetchRejected ''example.com'') startup) =
     [SetBadgeText (Some ''...'') (Some 1),
      SetBadgeBackgroundColor (Some ''#3b82f6'') (Some 1),
      CacheGet ''httpx://example.com/'',
      Fetch ''httpx://example.com/'',
      ConsoleError,
      SetBadgeText (Some ''!'') (Some 1),
      SetBadgeBackgroundColor (Some ''#6b7280'') (Some 1)]"
proof -
  have 1: "fetched (env_at 1000 (Json 200 (JObject safe_verdict)) ''example.com'') =
      Json 200 (JObject safe_verdict)"
    by (simp add: env_at_def)
  have 2: "\<not> truthy (error safe_verdict)" by (simp add: safe_verdict_def truthy_def)
  have a: "scanUrl ''ftp://example.com/file'' (Some 1)
     (env_at 1000 (Json 200 (JObject safe_verdict)) ''example.com'') startup =
     (Inr (Some safe_verdict),
      \<lparr>urlCache = [(''ftp://example.com/file'', \<lparr>result = safe_verdict, timestamp = 1000\<rparr>)],
       trace =
         [SetBadgeText (Some ''...'') (Some 1),
          SetBadgeBackgroundColor (Some ''#3b82f6'') (Some 1),
          CacheGet ''ftp://example.com/file'',
          Fetch ''ftp://example.com/file'',
          SetBadgeText (Some check_mark) (Some 1),
          SetBadgeBackgroundColor (Some ''#10b981'') (Some 1)]\<rparr>)"
    by (simp add: scanUrl_stored [OF fresh_startup 1 2] lower_ftp loading_color)
       (simp add: env_at_def startup_def cachePut_first CACHE_TTL_def safe_verdict_def
          safe_badge)
  have 3: "throws (fetched (env_at 1000 FetchRejected ''example.com''))"
    by (simp add: env_at_def)
  have b: "scanUrl ''httpx://example.com/'' (Some 1)
      (env_at 1000 FetchRejected ''example.com'') startup =
    (Inr None,
     emit [SetBadgeText (Some ''...'') (Some 1),
           SetBadgeBackgroundColor (BADGE_COLORS ''loading'') (Some 1),
           CacheGet (toLowerCase ''httpx://example.com/''),
           Fetch ''httpx://example.com/'',
           ConsoleError,
           SetBadgeText (Some ''!'') (Some 1),
           SetBadgeBackgroundColor (BADGE_COLORS ''error'') (Some 1)] startup)"
    using fresh_startup 3 by (rule scanUrl_throw)
  show ?thesis
    by (simp add: onMessage_def tab_or_def a onActivated_def b startsWith_def lower_httpx
        loading_color error_color)
       (simp add: startup_def)
qed

text \<open>
  C5, amended. For a tab whose URL is missing or does not start with \<^verbatim>\<open>http\<close>, the
  tab-activation listener does not scan: its only event sets the tab's badge text to the
  empty string, there is no cache lookup and no remote request, and the cache is
  unchanged. The tab-updated and the navigation-completed listener do nothing at all for
  such a URL.
\<close>

theorem ineligible_tab_not_scanned:
  "((\<forall>u. tab_url t = Some u \<longrightarrow> \<not> startsWith u ''http'') \<longrightarrow>
      onActivated (Some t) env w = emit [SetBadgeText (Some []) (Some (tab_ident t))] w \<and>
      urlCache (onActivated (Some t) env w) = urlCache w \<and>
      new_events w (onActivated (Some t) env w) = [SetBadgeText (Some []) (Some (tab_ident t))] \<and>
      remote_calls (new_events w (onActivated (Some t) env w)) = 0 \<and>
      filter is_cache_get (new_events w (onActivated (Some t) env w)) = [] \<and>
      onUpdated tabId status t injects env w = w) \<and>
   (\<not> startsWith url ''http'' \<longrightarrow> onCompleted frameId url tabId env w = w)"
proof (intro conjI impI)
  assume h: "\<forall>u. tab_url t = Some u \<longrightarrow> \<not> startsWith u ''http''"
  show eq: "onActivated (Some t) env w = emit [SetBadgeText (Some []) (Some (tab_ident t))] w"
    using h by (cases "tab_url t") (simp_all add: onActivated_def)
  show "urlCache (onActivated (Some t) env w) = urlCache w" by (simp add: eq)
  show "new_events w (onActivated (Some t) env w) = [SetBadgeText (Some []) (Some (tab_ident t))]"
    by (simp add: eq)
  show "remote_calls (new_events w (onActivated (Some t) env w)) = 0" by (simp add: eq)
  show "filter is_cache_get (new_events w (onActivated (Some t) env w)) = []" by (simp add: eq)
  show "onUpdated tabId status t injects env w = w"
    using h by (cases "tab_url t") (simp_all add: onUpdated_def)
next
  assume "\<not> startsWith url ''http''"
  then show "onCompleted frameId url tabId env w = w" by (simp add: onCompleted_def)
qed

theorem ineligible_tab_not_scanned_witness:
  "tab_url internal_tab = Some ''chrome://extensions/'' \<and>
   \<not> startsWith ''chrome://extensions/'' ''http'' \<and>
   onActivated (Some internal_tab) (env_at 0 FetchRejected []) malicious_worker =
     malicious_worker\<lparr>trace := [SetBadgeText (Some []) (Some 7)]\<rparr> \<and>
   onUpdated 7 (Some ''complete'') internal_tab True (env_at 0 FetchRejected [])
     malicious_worker = malicious_worker \<and>
   onCompleted 0 ''chrome://extensions/'' 7 (env_at 0 FetchRejected []) malicious_worker =
     malicious_worker"
proof -
  have u: "tab_url internal_tab = Some ''chrome://extensions/''"
    by (simp add: internal_tab_def)
  have n: "\<not> startsWith ''chrome://extensions/'' ''http''"
    by (simp add: startsWith_def)
  have h: "\<forall>u. tab_url internal_tab = Some u \<longrightarrow> \<not> startsWith u ''http''"
    using u n by simp
  show ?thesis
    using u n h
      ineligible_tab_not_scanned [where t = internal_tab and url = "''chrome://extensions/''"
        and env = "env_at 0 FetchRejected []" and w = malicious_worker
        and frameId = 0 and tabId = 7 and status = "Some ''complete''" and injects = True]
    by (simp add: emit_def malicious_worker_def internal_tab_def)
qed

subsection \<open>The answer to a \<^verbatim>\<open>scanUrl\<close> message\<close>

text \<open>
  C8. What the code does when the remote service cannot be reached: the \<^verbatim>\<open>scanUrl\<close>
  message is answered with \<^verbatim>\<open>null\<close>, since \<^verbatim>\<open>scanUrl\<close> catches the exception
  and resolves to \<^verbatim>\<open>null\<close>; the \<^verbatim>\<open>checkUrl\<close> message, in the same situation, is
  answered with an error payload. No \<^verbatim>\<open>scanUrl\<close> message is ever answered with an
  error payload.
\<close>

theorem scanUrl_message_failure:
  "onMessage (ScanUrlRequest ''http://example.com/a'' (Some 1)) None
     (env_at 1000 FetchRejected ''example.com'') startup =
     (Payload JNull,
      \<lparr>urlCache = [],
       trace =
         [SetBadgeText (Some ''...'') (Some 1),
          SetBadgeBackgroundColor (Some ''#3b82f6'') (Some 1),
          CacheGet ''http://example.com/a'',
          Fetch ''http://example.com/a'',
          ConsoleError,
          SetBadgeText (Some ''!'') (Some 1),
          SetBadgeBackgroundColor (Some ''#6b7280'') (Some 1)]\<rparr>) \<and>
   fst (onMessage (CheckUrlRequest ''http://example.com/a'') None
     (env_at 1000 FetchRejected ''example.com'') startup) = ErrorPayload FetchFailed \<and>
   fst (onMessage (ScanUrlRequest url tabId) sender_tab env w) \<noteq> ErrorPayload err"
proof -
  have 3: "throws (fetched (env_at 1000 FetchRejected ''example.com''))"
    by (simp add: env_at_def)
  have a: "onMessage (ScanUrlRequest ''http://example.com/a'' (Some 1)) None
     (env_at 1000 FetchRejected ''example.com'') startup =
     (Payload JNull,
      \<lparr>urlCache = [],
       trace =
         [SetBadgeText (Some ''...'') (Some 1),
          SetBadgeBackgroundColor (Some ''#3b82f6'') (Some 1),
          CacheGet ''http://example.com/a'',
          Fetch ''http://example.com/a'',
          ConsoleError,
          SetBadgeText (Some ''!'') (Some 1),
          SetBadgeBackgroundColor (Some ''#6b7280'') (Some 1)]\<rparr>) \<and>
   fst (onMessage (CheckUrlRequest ''http://example.com/a'') None
     (env_at 1000 FetchRejected ''example.com'') startup) = ErrorPayload FetchFailed"
    by (simp add: onMessage_def tab_or_def scanUrl_throw [OF fresh_startup 3] lower_example'
        loading_color error_color)
       (simp add: startup_def emit_def env_at_def)
  obtain r where "fst (scanUrl url (tab_or tabId sender_tab) env w) = Inr r"
    using scanUrl_resolves by blast
  then have b: "fst (onMessage (ScanUrlRequest url tabId) sender_tab env w) \<noteq> ErrorPayload err"
    by (cases "scanUrl url (tab_or tabId sender_tab) env w"; cases r)
       (simp_all add: onMessage_def)
  show ?thesis using a b by blast
qed

subsection \<open>The bulk link scan\<close>

lemma set_foldl_Set_add: "set (foldl Set_add acc xs) = set acc \<union> set xs"
  by (induction xs arbitrary: acc) (auto simp: Set_add_def)

lemma distinct_foldl_Set_add: "distinct acc \<Longrightarrow> distinct (foldl Set_add acc xs)"
  by (induction xs arbitrary: acc) (auto simp: Set_add_def)

lemma foldl_Set_add_distinct: "distinct (acc @ xs) \<Longrightarrow> foldl Set_add acc xs = acc @ xs"
  by (induction xs arbitrary: acc) (auto simp: Set_add_def)

lemma set_new_Set: "set (new_Set xs) = set xs"
  by (simp add: new_Set_def set_foldl_Set_add)

lemma distinct_new_Set: "distinct (new_Set xs)"
  by (simp add: new_Set_def distinct_foldl_Set_add)

lemma length_new_Set: "length (new_Set xs) = card (set xs)"
  using distinct_card [OF distinct_new_Set, of xs] by (simp add: set_new_Set)

lemma new_Set_distinct: "distinct xs \<Longrightarrow> new_Set xs = xs"
  using foldl_Set_add_distinct [of "[]" xs] by (simp add: new_Set_def)

lemma link_requests_simps [simp]:
  "link_requests [] = 0"
  "link_requests (e # evs) = (if is_check_url e then 1 else 0) + link_requests evs"
  "link_requests (xs @ ys) = link_requests xs + link_requests ys"
  by (simp_all add: link_requests_def)

lemma total_count_risk [simp]: "total (count_risk r st) = total st"
  by (simp add: count_risk_def)

text \<open>One round of the loop, by the outcome of its fetch.\<close>

lemma scanLink_events:
  "link_requests (events (scanLink remote link s)) = Suc (link_requests (events s))"
  by (simp add: scanLink_def Let_def split: fetch_outcome.split json_body.split)

lemma scanLink_stats:
  "stats (scanLink remote link s) = count_risk (risk_of (remote link)) (stats s)"
  by (cases "remote link" rule: risk_of.cases)
     (simp_all add: scanLink_def Let_def count_risk_def)

lemma scanLink_results:
  "results (scanLink remote link s) = results s @ pushed link (remote link)"
  by (cases "remote link" rule: risk_of.cases)
     (simp_all add: scanLink_def Let_def)

text \<open>The whole loop.\<close>

lemma fold_scanLink_events:
  "link_requests (events (fold (scanLink remote) ls s)) = link_requests (events s) + length ls"
  by (induction ls arbitrary: s) (simp_all add: scanLink_events)

lemma fold_scanLink_results:
  "results (fold (scanLink remote) ls s) =
     results s @ concat (map (\<lambda>l. pushed l (remote l)) ls)"
  by (induction ls arbitrary: s) (simp_all add: scanLink_results)

lemma fold_scanLink_total: "total (stats (fold (scanLink remote) ls s)) = total (stats s)"
  by (induction ls arbitrary: s) (simp_all add: scanLink_stats)

lemma fold_scanLink_safe:
  "safe (stats (fold (scanLink remote) ls s)) =
     safe (stats s) + length (filter (\<lambda>l. risk_of (remote l) = Some ''safe'') ls)"
  by (induction ls arbitrary: s) (simp_all add: scanLink_stats count_risk_def)

lemma fold_scanLink_suspicious:
  "suspicious (stats (fold (scanLink remote) ls s)) =
     suspicious (stats s) + length (filter (\<lambda>l. risk_of (remote l) = Some ''suspicious'') ls)"
  by (induction ls arbitrary: s) (simp_all add: scanLink_stats count_risk_def)

lemma fold_scanLink_malicious:
  "malicious (stats (fold (scanLink remote) ls s)) =
     malicious (stats s) + length (filter (\<lambda>l. risk_of (remote l) = Some ''malicious'') ls)"
  by (induction ls arbitrary: s) (simp_all add: scanLink_stats count_risk_def)

lemma three_filters:
  "length (filter (\<lambda>l. f l = Some ''safe'') ls) +
   length (filter (\<lambda>l. f l = Some ''suspicious'') ls) +
   length (filter (\<lambda>l. f l = Some ''malicious'') ls) \<le> length ls"
  by (induction ls) auto

lemma scanLink_requested:
  "filter is_check_url (events (scanLink remote link s)) =
     filter is_check_url (events s) @ [CheckUrl link]"
  by (cases "remote link" rule: throws.cases) (simp_all add: scanLink_def Let_def)

lemma fold_scanLink_requested:
  "filter is_check_url (events (fold (scanLink remote) ls s)) =
     filter is_check_url (events s) @ map CheckUrl ls"
  by (induction ls arbitrary: s) (simp_all add: scanLink_requested)

lemma fold_scanLink_stats:
  assumes "safe (stats s) = 0" and "suspicious (stats s) = 0" and "malicious (stats s) = 0"
  shows "stats (fold (scanLink remote) ls s) =
     \<lparr>total = total (stats s),
      safe = length (filter (\<lambda>l. risk_of (remote l) = Some ''safe'') ls),
      suspicious = length (filter (\<lambda>l. risk_of (remote l) = Some ''suspicious'') ls),
      malicious = length (filter (\<lambda>l. risk_of (remote l) = Some ''malicious'') ls)\<rparr>"
  using assms
  by (intro link_stats.equality)
     (simp_all add: fold_scanLink_total fold_scanLink_safe fold_scanLink_suspicious
        fold_scanLink_malicious)

lemma scanPageLinks_Some:
  "scanPageLinks (Some ls) remote p =
     p\<lparr>pageLinksStats :=
         AList.update (currentUrl p)
           \<lparr>total = card (set ls),
            safe = length (filter (\<lambda>l. risk_of (remote l) = Some ''safe'') (take 50 (new_Set ls))),
            suspicious =
              length (filter (\<lambda>l. risk_of (remote l) = Some ''suspicious'') (take 50 (new_Set ls))),
            malicious =
              length (filter (\<lambda>l. risk_of (remote l) = Some ''malicious'') (take 50 (new_Set ls)))\<rparr>
           (pageLinksStats p),
       popup_trace := popup_trace p @ [GetLinks] @
         events (fold (scanLink remote) (take 50 (new_Set ls))
           \<lparr>stats = \<lparr>total = card (set ls), safe = 0, suspicious = 0, malicious = 0\<rparr>,
            results = [], events = []\<rparr>) @
         [StorageSet (currentUrl p)
            \<lparr>total = card (set ls),
             safe = length (filter (\<lambda>l. risk_of (remote l) = Some ''safe'') (take 50 (new_Set ls))),
             suspicious =
               length (filter (\<lambda>l. risk_of (remote l) = Some ''suspicious'') (take 50 (new_Set ls))),
             malicious =
               length (filter (\<lambda>l. risk_of (remote l) = Some ''malicious'') (take 50 (new_Set ls)))\<rparr>,
          HighlightLinks (concat (map (\<lambda>l. pushed l (remote l)) (take 50 (new_Set ls)))),
          ToastSuccess (card (set ls))]\<rparr>"
  by (simp add: scanPageLinks_def Let_def fold_scanLink_stats fold_scanLink_results
      length_new_Set)

lemma popup_new_append [simp]: "popup_trace p' = popup_trace p @ evs \<Longrightarrow> popup_new p p' = evs"
  by (simp add: popup_new_def)

text \<open>
  C6. \<^verbatim>\<open>scanPageLinks\<close> scans the first 50 elements of the de-duplicated list of
  links, which has no element twice and the same elements as the input. It issues one
  remote request per scanned link, in order, and no other, so \<open>min N 50\<close> requests for
  \<open>N\<close> distinct links. The
  stats it stores under the page's URL have \<^verbatim>\<open>total\<close> equal to \<open>N\<close>, while each
  counter counts, among the scanned links only, the responses with that risk; the three
  counters together do not exceed \<open>min N 50\<close>. For 120 distinct links: 50 requests,
  \<^verbatim>\<open>total\<close> 120, and the scanned links are the first 50.
\<close>

theorem bulk_scan_cap:
  "(let p' = scanPageLinks (Some ls) remote p;
        scanned = take 50 (new_Set ls);
        st = \<lparr>total = card (set ls),
              safe = length (filter (\<lambda>l. risk_of (remote l) = Some ''safe'') scanned),
              suspicious = length (filter (\<lambda>l. risk_of (remote l) = Some ''suspicious'') scanned),
              malicious = length (filter (\<lambda>l. risk_of (remote l) = Some ''malicious'') scanned)\<rparr>
    in distinct (new_Set ls) \<and> set (new_Set ls) = set ls \<and>
       length scanned = min (card (set ls)) 50 \<and>
       link_requests (popup_new p p') = min (card (set ls)) 50 \<and>
       filter is_check_url (popup_new p p') = map CheckUrl scanned \<and>
       map_of (pageLinksStats p') (currentUrl p) = Some st \<and>
       StorageSet (currentUrl p) st \<in> set (popup_new p p') \<and>
       safe st + suspicious st + malicious st \<le> min (card (set ls)) 50 \<and>
       (distinct ls \<and> length ls = 120 \<longrightarrow>
          link_requests (popup_new p p') = 50 \<and> total st = 120 \<and> scanned = take 50 ls))"
proof -
  let ?scanned = "take 50 (new_Set ls)"
  have len: "length ?scanned = min (card (set ls)) 50"
    by (simp add: length_new_Set)
  have req: "link_requests (popup_new p (scanPageLinks (Some ls) remote p)) =
      min (card (set ls)) 50"
    by (simp add: scanPageLinks_Some fold_scanLink_events length_new_Set)
  have sum: "length (filter (\<lambda>l. risk_of (remote l) = Some ''safe'') ?scanned) +
      length (filter (\<lambda>l. risk_of (remote l) = Some ''suspicious'') ?scanned) +
      length (filter (\<lambda>l. risk_of (remote l) = Some ''malicious'') ?scanned) \<le>
        min (card (set ls)) 50"
    using three_filters [of "\<lambda>l. risk_of (remote l)" ?scanned] len
    by (simp add: length_new_Set)
  have big: "distinct ls \<and> length ls = 120 \<longrightarrow>
      min (card (set ls)) 50 = 50 \<and> card (set ls) = 120 \<and> ?scanned = take 50 ls"
    by (auto simp: distinct_card new_Set_distinct)
  have which: "filter is_check_url (popup_new p (scanPageLinks (Some ls) remote p)) =
      map CheckUrl ?scanned"
    by (simp add: scanPageLinks_Some fold_scanLink_requested)
  show ?thesis
    unfolding Let_def
    using len req sum big which
    by (simp add: distinct_new_Set set_new_Set)
       (simp add: scanPageLinks_Some update_conv')
qed


lemma foldl_Set_add_absorb: "set xs \<subseteq> set acc \<Longrightarrow> foldl Set_add acc xs = acc"
  by (induction xs arbitrary: acc) (auto simp: Set_add_def)

lemma new_Set_twice: "new_Set (xs @ xs) = new_Set xs"
  by (simp add: new_Set_def foldl_Set_add_absorb set_foldl_Set_add)

lemma distinct_many_links: "distinct many_links"
proof -
  have "inj_on (\<lambda>i. ''http://example.com/'' @ replicate i CHR ''a'') (set [0..<120])"
    by (rule inj_onI) (metis length_replicate same_append_eq)
  then show ?thesis by (simp add: many_links_def distinct_map)
qed

lemma length_many_links: "length many_links = 120"
  by (simp add: many_links_def)

theorem bulk_scan_cap_witness:
  "distinct many_links \<and> length many_links = 120 \<and>
   link_requests (popup_new popup0
     (scanPageLinks (Some many_links) (\<lambda>l. Json 200 (JObject malicious_verdict)) popup0)) = 50 \<and>
   map_of (pageLinksStats
     (scanPageLinks (Some many_links) (\<lambda>l. Json 200 (JObject malicious_verdict)) popup0))
     ''http://example.com/page'' =
     Some \<lparr>total = 120, safe = 0, suspicious = 0, malicious = 50\<rparr> \<and>
   map_of (pageLinksStats
     (scanPageLinks (Some (many_links @ many_links))
        (\<lambda>l. Json 200 (JObject malicious_verdict)) popup0))
     ''http://example.com/page'' =
     Some \<lparr>total = 120, safe = 0, suspicious = 0, malicious = 50\<rparr>"
proof -
  let ?remote = "\<lambda>l::string. Json 200 (JObject malicious_verdict)"
  have c: "card (set many_links) = 120"
    using distinct_card [OF distinct_many_links] by (simp add: length_many_links)
  have n: "new_Set (many_links @ many_links) = many_links"
    using distinct_many_links by (simp add: new_Set_twice new_Set_distinct)
  have a: "link_requests (popup_new popup0 (scanPageLinks (Some many_links) ?remote popup0)) = 50 \<and>
    map_of (pageLinksStats (scanPageLinks (Some many_links) ?remote popup0)) (currentUrl popup0) =
      Some \<lparr>total = 120, safe = 0, suspicious = 0, malicious = 50\<rparr>"
    using bulk_scan_cap [of many_links ?remote popup0] distinct_many_links length_many_links
    by (simp add: Let_def c new_Set_distinct malicious_verdict_def)
  have b: "map_of (pageLinksStats (scanPageLinks (Some (many_links @ many_links)) ?remote popup0))
      (currentUrl popup0) =
      Some \<lparr>total = 120, safe = 0, suspicious = 0, malicious = 50\<rparr>"
    using bulk_scan_cap [of "many_links @ many_links" ?remote popup0]
    by (simp add: Let_def c n length_many_links malicious_verdict_def)
  show ?thesis
    using a b distinct_many_links length_many_links by (simp add: popup0_def)
qed

text \<open>
  Against C10 as stated: a response with an \<^verbatim>\<open>error\<close> field and the risk
  \<^verbatim>\<open>safe\<close> increments the \<^verbatim>\<open>safe\<close> counter.
\<close>

theorem error_response_counterexample:
  "error error_safe_verdict = Some ''Model degraded'' \<and>
   pageLinksStats (scanPageLinks (Some [''http://example.com/x''])
     (\<lambda>l. Json 200 (JObject error_safe_verdict)) popup0) =
     [(''http://example.com/page'', \<lparr>total = 1, safe = 1, suspicious = 0, malicious = 0\<rparr>)]"
  by (simp add: scanPageLinks_Some new_Set_distinct)
     (simp add: popup0_def error_safe_verdict_def)

text \<open>
  C10, amended. In a round of the loop whose response parses to an object with an
  \<^verbatim>\<open>error\<close> field, nothing is logged, the response is appended to the results, and
  the counters change as the \<^verbatim>\<open>risk\<close> field says: not at all when the risk is none of
  \<^verbatim>\<open>safe\<close>, \<^verbatim>\<open>suspicious\<close>, \<^verbatim>\<open>malicious\<close>. When the link is among the
  scanned ones, the results sent to the content script for highlighting contain the
  response.
\<close>

theorem error_response_in_bulk_scan:
  "(remote link = Json status (JObject res) \<and> error res = Some msg \<longrightarrow>
      results (scanLink remote link s) = results s @ [(link, JObject res)] \<and>
      events (scanLink remote link s) = events s @ [CheckUrl link] \<and>
      stats (scanLink remote link s) = count_risk (risk res) (stats s) \<and>
      (risk res \<noteq> Some ''safe'' \<and> risk res \<noteq> Some ''suspicious'' \<and>
       risk res \<noteq> Some ''malicious'' \<longrightarrow> stats (scanLink remote link s) = stats s) \<and>
      (link \<in> set (take 50 (new_Set ls)) \<longrightarrow>
         (\<exists>rs. HighlightLinks rs \<in> set (popup_new p (scanPageLinks (Some ls) remote p)) \<and>
               (link, JObject res) \<in> set rs)))"
proof (intro impI)
  assume h: "remote link = Json status (JObject res) \<and> error res = Some msg"
  then have r: "remote link = Json status (JObject res)" by simp
  have 1: "results (scanLink remote link s) = results s @ [(link, JObject res)]"
    by (simp add: scanLink_results r)
  have 2: "events (scanLink remote link s) = events s @ [CheckUrl link]"
    by (simp add: scanLink_def Let_def r)
  have 3: "stats (scanLink remote link s) = count_risk (risk res) (stats s)"
    by (simp add: scanLink_stats r)
  have 4: "risk res \<noteq> Some ''safe'' \<and> risk res \<noteq> Some ''suspicious'' \<and>
       risk res \<noteq> Some ''malicious'' \<longrightarrow> stats (scanLink remote link s) = stats s"
    by (simp add: 3 count_risk_def)
  have 5: "link \<in> set (take 50 (new_Set ls)) \<longrightarrow>
         (\<exists>rs. HighlightLinks rs \<in> set (popup_new p (scanPageLinks (Some ls) remote p)) \<and>
               (link, JObject res) \<in> set rs)"
  proof
    assume m: "link \<in> set (take 50 (new_Set ls))"
    let ?rs = "concat (map (\<lambda>l. pushed l (remote l)) (take 50 (new_Set ls)))"
    have "HighlightLinks ?rs \<in> set (popup_new p (scanPageLinks (Some ls) remote p))"
      by (simp add: scanPageLinks_Some)
    moreover have "(link, JObject res) \<in> set ?rs"
      using m r by force
    ultimately show "\<exists>rs. HighlightLinks rs \<in> set (popup_new p (scanPageLinks (Some ls) remote p)) \<and>
               (link, JObject res) \<in> set rs"
      by blast
  qed
  show "results (scanLink remote link s) = results s @ [(link, JObject res)] \<and>
      events (scanLink remote link s) = events s @ [CheckUrl link] \<and>
      stats (scanLink remote link s) = count_risk (risk res) (stats s) \<and>
      (risk res \<noteq> Some ''safe'' \<and> risk res \<noteq> Some ''suspicious'' \<and>
       risk res \<noteq> Some ''malicious'' \<longrightarrow> stats (scanLink remote link s) = stats s) \<and>
      (link \<in> set (take 50 (new_Set ls)) \<longrightarrow>
         (\<exists>rs. HighlightLinks rs \<in> set (popup_new p (scanPageLinks (Some ls) remote p)) \<and>
               (link, JObject res) \<in> set rs))"
    using 1 2 3 4 5 by blast
qed

theorem error_response_in_bulk_scan_witness:
  "error error_verdict = Some ''Internal error'' \<and> risk error_verdict = None \<and>
   ''http://example.com/x'' \<in> set (take 50 (new_Set [''http://example.com/x''])) \<and>
   pageLinksStats (scanPageLinks (Some [''http://example.com/x''])
     (\<lambda>l. Json 500 (JObject error_verdict)) popup0) =
     [(''http://example.com/page'', \<lparr>total = 1, safe = 0, suspicious = 0, malicious = 0\<rparr>)] \<and>
   HighlightLinks [(''http://example.com/x'', JObject error_verdict)] \<in>
     set (popup_new popup0 (scanPageLinks (Some [''http://example.com/x''])
       (\<lambda>l. Json 500 (JObject error_verdict)) popup0)) \<and>
   (\<exists>rs. HighlightLinks rs \<in> set (popup_new popup0 (scanPageLinks (Some [''http://example.com/x''])
       (\<lambda>l. Json 500 (JObject error_verdict)) popup0)) \<and>
         (''http://example.com/x'', JObject error_verdict) \<in> set rs)"
proof -
  let ?remote = "\<lambda>l::string. Json 500 (JObject error_verdict)"
  let ?link = "''http://example.com/x''"
  have e: "error error_verdict = Some ''Internal error''" by (simp add: error_verdict_def)
  have k: "risk error_verdict = None" by (simp add: error_verdict_def)
  have m: "?link \<in> set (take 50 (new_Set [?link]))" by (simp add: new_Set_distinct)
  have st: "pageLinksStats (scanPageLinks (Some [?link]) ?remote popup0) =
     [(''http://example.com/page'', \<lparr>total = 1, safe = 0, suspicious = 0, malicious = 0\<rparr>)]"
    by (simp add: scanPageLinks_Some new_Set_distinct) (simp add: popup0_def k)
  have hl: "HighlightLinks [(?link, JObject error_verdict)] \<in>
     set (popup_new popup0 (scanPageLinks (Some [?link]) ?remote popup0))"
    by (simp add: scanPageLinks_Some new_Set_distinct)
  have ex: "\<exists>rs. HighlightLinks rs \<in> set (popup_new popup0 (scanPageLinks (Some [?link]) ?remote popup0)) \<and>
         (?link, JObject error_verdict) \<in> set rs"
    using error_response_in_bulk_scan [of ?remote ?link 500 error_verdict "''Internal error''"
        _ "[?link]" popup0] e m
    by blast
  show ?thesis using e k m st hl ex by blast
qed

end
